theory Spec2Isabelle
  imports Complex_Main
begin

section \<open>Python values shared by both modules\<close>

text \<open>
  Exceptions are values. Every \<open>raise\<close> of the source and every exception a library call
  of the source can raise is a constructor; a function that can raise returns
  \<open>error + 'a\<close> with \<open>Inl\<close> for the exception. Python floats are idealised as reals.
\<close>

datatype error =
    IndexError | KeyError | ValueError | TypeError | AttributeError
  | StopIteration | RuntimeError | FileNotFoundError | JSONDecodeError
  | CvError | LibraryError

text \<open>Sequencing of calls that may raise: the first exception propagates.\<close>

definition err_bind :: "error + 'a \<Rightarrow> ('a \<Rightarrow> error + 'b) \<Rightarrow> error + 'b" where
  "err_bind m f = (case m of Inl e \<Rightarrow> Inl e | Inr v \<Rightarrow> f v)"

text \<open>\<open>xs[i]\<close> for a non-negative literal index \<open>i\<close>.\<close>

definition nth_err :: "'a list \<Rightarrow> nat \<Rightarrow> error + 'a" where
  "nth_err xs i = (if i < length xs then Inr (xs ! i) else Inl IndexError)"

text \<open>\<open>xs[i]\<close> for an int that may be negative: Python counts from the end.\<close>

definition py_getitem :: "'a list \<Rightarrow> int \<Rightarrow> error + 'a" where
  "py_getitem xs i =
     (if 0 \<le> i \<and> i < int (length xs) then Inr (xs ! nat i)
      else if i < 0 \<and> - int (length xs) \<le> i then Inr (xs ! nat (int (length xs) + i))
      else Inl IndexError)"

text \<open>\<open>int(x)\<close> on a float truncates towards zero.\<close>

definition py_int :: "real \<Rightarrow> int" where
  "py_int v = (if 0 \<le> v then \<lfloor>v\<rfloor> else \<lceil>v\<rceil>)"

text \<open>
  The bounds of the slice \<open>a:b\<close> on a sequence of length \<open>n\<close>: a negative bound counts
  from the end, and both are clamped to \<open>[0, n]\<close>. The slice holds the positions
  \<open>lo, ..., hi - 1\<close> and is empty when \<open>hi \<le> lo\<close>.
\<close>

definition slice_bound :: "nat \<Rightarrow> int \<Rightarrow> nat" where
  "slice_bound n a = (if a < 0 then nat (max (a + int n) 0) else min (nat a) n)"

definition py_slice :: "'a list \<Rightarrow> int \<Rightarrow> int \<Rightarrow> 'a list" where
  "py_slice xs a b =
     (let lo = slice_bound (length xs) a; hi = slice_bound (length xs) b
      in take (hi - lo) (drop lo xs))"

section \<open>MediapipeEstimator\<close>

subsection \<open>Data\<close>

text \<open>
  A BGR image of shape \<open>(height, width, 3)\<close>. The shape is kept apart from the pixels:
  a crop with no rows still has a width, as a numpy array does.
\<close>

record image =
  height :: nat
  width :: nat
  pixel :: "nat \<Rightarrow> nat \<Rightarrow> nat \<times> nat \<times> nat"

text \<open>One landmark of \<open>result_mp.pose_landmarks.landmark\<close>.\<close>

record landmark =
  lm_x :: real
  lm_y :: real
  lm_z :: real
  lm_visibility :: real

text \<open>
  The estimator object. \<open>pose_model\<close> stands for \<open>self.pose_model.process\<close>, a call
  into the third-party library: it may raise, and otherwise gives \<open>pose_landmarks\<close>,
  which is \<open>None\<close> when no person is found.
\<close>

record estimator =
  pose_model :: "image \<Rightarrow> error + landmark list option"
  bbox_thr :: real
  convention :: string

text \<open>The dict \<open>{'bbox': bbox, 'id': idx}\<close> built by \<open>infer_array\<close>.\<close>

record bbox_dict =
  bd_bbox :: "real list"
  bd_id :: nat

text \<open>The dict \<open>dict(bbox=bbox, keypoints=kps2d)\<close> built by \<open>infer_single_img\<close>.\<close>

record person_dict =
  pd_bbox :: "real list"
  pd_keypoints :: "real list list"

definition get_keypoints_convention_name :: "estimator \<Rightarrow> string" where
  "get_keypoints_convention_name est = convention est"

subsection \<open>infer_single_img\<close>

text \<open>\<open>img_arr[y1:y2, x1:x2]\<close> on an array of shape \<open>(height, width, 3)\<close>.\<close>

definition crop :: "image \<Rightarrow> int \<Rightarrow> int \<Rightarrow> int \<Rightarrow> int \<Rightarrow> image" where
  "crop img y1 y2 x1 x2 =
     (let r0 = slice_bound (height img) y1; r1 = slice_bound (height img) y2;
          c0 = slice_bound (width img) x1; c1 = slice_bound (width img) x2
      in \<lparr>height = r1 - r0, width = c1 - c0,
          pixel = (\<lambda>i j. pixel img (r0 + i) (c0 + j))\<rparr>)"

text \<open>\<open>cv2.cvtColor(img, cv2.COLOR_BGR2RGB)\<close>: OpenCV raises on an empty image.\<close>

definition cvtColor_BGR2RGB :: "image \<Rightarrow> error + image" where
  "cvtColor_BGR2RGB img =
     (if height img = 0 \<or> width img = 0 then Inl CvError
      else Inr (img\<lparr>pixel := (\<lambda>i j. case pixel img i j of (b, g, r) \<Rightarrow> (r, g, b))\<rparr>))"

text \<open>The list comprehension that builds \<open>kps_list\<close> from the landmarks of one crop.\<close>

definition kps_list_of :: "image \<Rightarrow> real list \<Rightarrow> landmark list \<Rightarrow> real list list" where
  "kps_list_of img bbox lms =
     map (\<lambda>lm. [lm_x lm * real (width img) + bbox ! 0,
                lm_y lm * real (height img) + bbox ! 1,
                lm_visibility lm]) lms"

text \<open>
  The body of the loop over \<open>bbox_list\<close>: the entries it appends to \<open>multi_kps2d\<close>
  (none or one). \<open>img_arr\<close> is \<open>None\<close> when \<open>cv2.imread\<close> could not read the frame;
  subscripting it raises \<open>TypeError\<close>. After \<open>bbox[4]\<close> has been read, the reads of
  \<open>bbox[0]\<close> to \<open>bbox[3]\<close> are in range. A protobuf message is truthy, so
  \<open>if result_mp.pose_landmarks\<close> tests for \<open>None\<close> only.
\<close>

definition infer_single_bbox ::
  "estimator \<Rightarrow> image option \<Rightarrow> bbox_dict \<Rightarrow> error + person_dict list" where
  "infer_single_bbox est img_arr bbox_dict =
     (let bbox = bd_bbox bbox_dict in
      err_bind (nth_err bbox 4) (\<lambda>score.
        if score > bbox_thr est then
          (case img_arr of
             None \<Rightarrow> Inl TypeError
           | Some arr \<Rightarrow>
               (let img = crop arr (py_int (bbox ! 1)) (py_int (bbox ! 3))
                                   (py_int (bbox ! 0)) (py_int (bbox ! 2)) in
                err_bind (cvtColor_BGR2RGB img) (\<lambda>rgb.
                err_bind (pose_model est rgb) (\<lambda>pose_landmarks.
                  case pose_landmarks of
                    None \<Rightarrow> Inr []
                  | Some lms \<Rightarrow>
                      Inr [\<lparr>pd_bbox = bbox, pd_keypoints = kps_list_of img bbox lms\<rparr>]))))
        else Inr []))"

fun infer_single_img ::
  "estimator \<Rightarrow> image option \<Rightarrow> bbox_dict list \<Rightarrow> error + person_dict list" where
  "infer_single_img est img_arr [] = Inr []"
| "infer_single_img est img_arr (bbox_dict # rest) =
     err_bind (infer_single_bbox est img_arr bbox_dict) (\<lambda>new.
     err_bind (infer_single_img est img_arr rest) (\<lambda>multi_kps2d.
       Inr (new @ multi_kps2d)))"

subsection \<open>infer_array\<close>

text \<open>
  The constructor: \<open>self.convention\<close> is the constant \<open>'mediapipe_body'\<close>; the pose
  model is built by the library from \<open>mediapipe_kwargs\<close> and is taken as it is.
\<close>

definition MediapipeEstimator ::
  "(image \<Rightarrow> error + landmark list option) \<Rightarrow> real \<Rightarrow> estimator" where
  "MediapipeEstimator process thr =
     \<lparr>pose_model = process, bbox_thr = thr, convention = ''mediapipe_body''\<rparr>"

type_synonym heatmap = "real list list"

type_synonym infer_result =
  "real list list list list \<times> heatmap list option \<times> real list list list"

text \<open>
  The loop \<open>for idx, bbox in enumerate(bbox_list[frame_index])\<close> that collects
  \<open>bboxes_in_frame\<close>; \<open>idx\<close> is the position reached so far.
\<close>

fun select_bboxes :: "nat \<Rightarrow> real list list \<Rightarrow> error + bbox_dict list" where
  "select_bboxes idx [] = Inr []"
| "select_bboxes idx (bbox # rest) =
     err_bind (nth_err bbox 4) (\<lambda>score.
     err_bind (select_bboxes (Suc idx) rest) (\<lambda>bboxes_in_frame.
       Inr (if score > 0 then \<lparr>bd_bbox = bbox, bd_id = idx\<rparr> # bboxes_in_frame
            else bboxes_in_frame)))"

text \<open>\<open>np.zeros(shape=(n, n_kps, 3))\<close> and \<open>np.zeros(shape=(n, 5))\<close>.\<close>

definition zeros3 :: "nat \<Rightarrow> nat \<Rightarrow> nat \<Rightarrow> real list list list" where
  "zeros3 n k d = replicate n (replicate k (replicate d 0))"

definition zeros2 :: "nat \<Rightarrow> nat \<Rightarrow> real list list" where
  "zeros2 n d = replicate n (replicate d 0)"

text \<open>
  The value numpy stores by \<open>frame_bbox_results[idx] = bbox\<close> into a row of shape
  \<open>(5,)\<close>, and by \<open>frame_kps_results[idx] = keypoints\<close> into a block of shape
  \<open>(n_kps, 3)\<close>: the source is broadcast (a length of one is stretched), and any other
  shape raises \<open>ValueError\<close>. \<open>keypoints\<close> is \<open>np.array(kps_list)\<close>, of shape
  \<open>(len, 3)\<close>, or \<open>(0,)\<close> when \<open>kps_list\<close> is empty, which fits no block.
\<close>

definition broadcast_bbox :: "real list \<Rightarrow> error + real list" where
  "broadcast_bbox bbox =
     (if length bbox = 5 then Inr bbox
      else if length bbox = 1 then Inr (replicate 5 (hd bbox))
      else Inl ValueError)"

definition broadcast_kps :: "nat \<Rightarrow> real list list \<Rightarrow> error + real list list" where
  "broadcast_kps n_kps keypoints =
     (if keypoints \<noteq> [] \<and> length keypoints = n_kps then Inr keypoints
      else if length keypoints = 1 then Inr (replicate n_kps (hd keypoints))
      else Inl ValueError)"

text \<open>
  The loop \<open>for idx, person_dict in enumerate(pose_results)\<close> over the two arrays
  (bbox array first, then keypoints array, as the source assigns them).
\<close>

fun assign_results ::
  "nat \<Rightarrow> nat \<Rightarrow> person_dict list \<Rightarrow> real list list \<times> real list list list
     \<Rightarrow> error + real list list \<times> real list list list" where
  "assign_results n_kps idx [] arrays = Inr arrays"
| "assign_results n_kps idx (person_dict # rest) (frame_bbox_results, frame_kps_results) =
     (if idx < length frame_bbox_results then
        err_bind (broadcast_bbox (pd_bbox person_dict)) (\<lambda>bbox.
        err_bind (broadcast_kps n_kps (pd_keypoints person_dict)) (\<lambda>keypoints.
          assign_results n_kps (Suc idx) rest
            (frame_bbox_results[idx := bbox], frame_kps_results[idx := keypoints])))
      else Inl IndexError)"

text \<open>
  The body of the loop over frames: from the frame and its bboxes to the pair
  \<open>(frame_kps_results, frame_bbox_results)\<close> after \<open>tolist()\<close>.
\<close>

definition infer_array_frame ::
  "nat \<Rightarrow> estimator \<Rightarrow> image option \<Rightarrow> real list list
     \<Rightarrow> error + real list list list \<times> real list list" where
  "infer_array_frame n_kps est img_arr bboxes =
     err_bind (select_bboxes 0 bboxes) (\<lambda>bboxes_in_frame.
       if length bboxes_in_frame > 0 then
         err_bind (infer_single_img est img_arr bboxes_in_frame) (\<lambda>pose_results.
         err_bind (assign_results n_kps 0 pose_results
                     (zeros2 (length bboxes) 5, zeros3 (length bboxes) n_kps 3))
           (\<lambda>(frame_bbox_results, frame_kps_results).
              Inr (frame_kps_results, frame_bbox_results)))
       else Inr ([], []))"

text \<open>
  The loop \<open>for frame_index in range(0, n_frame)\<close> with \<open>n_frame = len(image_array)\<close>:
  \<open>bbox_list[frame_index]\<close> raises \<open>IndexError\<close> when \<open>bbox_list\<close> is the shorter one.
\<close>

fun infer_array_loop ::
  "nat \<Rightarrow> estimator \<Rightarrow> image option list \<Rightarrow> real list list list
     \<Rightarrow> error + real list list list list \<times> real list list list" where
  "infer_array_loop n_kps est [] bbox_list = Inr ([], [])"
| "infer_array_loop n_kps est (img_arr # imgs) [] = Inl IndexError"
| "infer_array_loop n_kps est (img_arr # imgs) (bboxes # bbox_list) =
     err_bind (infer_array_frame n_kps est img_arr bboxes) (\<lambda>(frame_kps, frame_bbox).
     err_bind (infer_array_loop n_kps est imgs bbox_list) (\<lambda>(ret_kps_list, ret_bbox_list).
       Inr (frame_kps # ret_kps_list, frame_bbox # ret_bbox_list)))"

text \<open>
  \<open>get_keypoint_num\<close> is a table of the convention module, outside the two modules
  verified here: it is the parameter \<open>gkn\<close>.
\<close>

definition infer_array ::
  "(string \<Rightarrow> nat) \<Rightarrow> estimator \<Rightarrow> image option list \<Rightarrow> real list list list
     \<Rightarrow> bool \<Rightarrow> bool \<Rightarrow> error + infer_result" where
  "infer_array gkn est image_array bbox_list disable_tqdm return_heatmap =
     (let n_kps = gkn (get_keypoints_convention_name est) in
      err_bind (infer_array_loop n_kps est image_array bbox_list)
        (\<lambda>(ret_kps_list, ret_bbox_list). Inr (ret_kps_list, None, ret_bbox_list)))"

subsection \<open>infer_frames and infer_video\<close>

text \<open>
  \<open>range(0, n, b)\<close>: \<open>ValueError\<close> for a zero step, nothing for a negative one, and
  the multiples of \<open>b\<close> below \<open>n\<close> otherwise.
\<close>

definition py_range0 :: "nat \<Rightarrow> int \<Rightarrow> error + nat list" where
  "py_range0 n b =
     (if b = 0 then Inl ValueError
      else if b < 0 then Inr []
      else Inr (map (\<lambda>k. k * nat b) [0..<(n + nat b - 1) div nat b]))"

text \<open>
  The loop over \<open>start_idx\<close>. \<open>imread\<close> stands for \<open>cv2.imread\<close>, which gives
  \<open>None\<close> for a file it cannot read.
\<close>

fun infer_frames_loop ::
  "(string \<Rightarrow> nat) \<Rightarrow> (string \<Rightarrow> image option) \<Rightarrow> estimator \<Rightarrow> string list
     \<Rightarrow> real list list list \<Rightarrow> bool \<Rightarrow> int \<Rightarrow> nat list
     \<Rightarrow> error + real list list list list \<times> real list list list" where
  "infer_frames_loop gkn imread est frame_path_list bbox_list disable_tqdm b [] = Inr ([], [])"
| "infer_frames_loop gkn imread est frame_path_list bbox_list disable_tqdm b (start_idx # rest) =
     (let end_idx = min (int (length frame_path_list)) (int start_idx + b);
          image_array_list = map imread (py_slice frame_path_list (int start_idx) end_idx)
      in err_bind (infer_array gkn est image_array_list
                     (py_slice bbox_list (int start_idx) end_idx) disable_tqdm False)
           (\<lambda>(batch_pose_list, _, batch_boox_list).
         err_bind (infer_frames_loop gkn imread est frame_path_list bbox_list disable_tqdm b rest)
           (\<lambda>(ret_kps_list, ret_boox_list).
              Inr (batch_pose_list @ ret_kps_list, batch_boox_list @ ret_boox_list))))"

definition infer_frames ::
  "(string \<Rightarrow> nat) \<Rightarrow> (string \<Rightarrow> image option) \<Rightarrow> estimator \<Rightarrow> string list
     \<Rightarrow> real list list list \<Rightarrow> bool \<Rightarrow> bool \<Rightarrow> int option \<Rightarrow> error + infer_result" where
  "infer_frames gkn imread est frame_path_list bbox_list disable_tqdm return_heatmap load_batch_size =
     (let b = (case load_batch_size of None \<Rightarrow> int (length frame_path_list) | Some v \<Rightarrow> v) in
      err_bind (py_range0 (length frame_path_list) b) (\<lambda>starts.
      err_bind (infer_frames_loop gkn imread est frame_path_list bbox_list disable_tqdm b starts)
        (\<lambda>(ret_kps_list, ret_boox_list). Inr (ret_kps_list, None, ret_boox_list))))"

text \<open>\<open>video_to_array\<close> is a library call: it may raise, and otherwise gives the frames.\<close>

definition infer_video ::
  "(string \<Rightarrow> nat) \<Rightarrow> (string \<Rightarrow> error + image list) \<Rightarrow> estimator \<Rightarrow> string
     \<Rightarrow> real list list list \<Rightarrow> bool \<Rightarrow> bool \<Rightarrow> error + infer_result" where
  "infer_video gkn video_to_array est video_path bbox_list disable_tqdm return_heatmap =
     err_bind (video_to_array video_path) (\<lambda>image_array.
     err_bind (infer_array gkn est (map Some image_array) bbox_list disable_tqdm False)
       (\<lambda>(ret_kps_list, _, ret_boox_list). Inr (ret_kps_list, None, ret_boox_list)))"

text \<open>The chunks \<open>frame_path_list[start_idx:end_idx]\<close> the loop of \<open>infer_frames\<close> visits.\<close>

definition frame_chunks :: "'a list \<Rightarrow> int \<Rightarrow> nat list \<Rightarrow> 'a list list" where
  "frame_chunks xs b starts =
     map (\<lambda>start_idx. py_slice xs (int start_idx)
                         (min (int (length xs)) (int start_idx + b))) starts"

subsection \<open>What the specification says of infer_single_img\<close>

text \<open>
  The three definitions below follow the words of the specification, not the code: the
  crop of a bbox together with the landmarks the pose model returns on it (nothing when
  the colour conversion or the model raises, or when no landmarks are found), the keypoint
  a landmark is rescaled to, and the entries one bbox contributes to the result.
\<close>

definition landmarks_on_crop :: "estimator \<Rightarrow> image \<Rightarrow> real list \<Rightarrow> (image \<times> landmark list) option" where
  "landmarks_on_crop est img_arr bbox =
     (let img = crop img_arr (py_int (bbox ! 1)) (py_int (bbox ! 3))
                             (py_int (bbox ! 0)) (py_int (bbox ! 2))
      in case cvtColor_BGR2RGB img of
           Inl e \<Rightarrow> None
         | Inr rgb \<Rightarrow>
             (case pose_model est rgb of
                Inr (Some lms) \<Rightarrow> Some (img, lms)
              | _ \<Rightarrow> None))"

definition spec_keypoint :: "image \<Rightarrow> real list \<Rightarrow> landmark \<Rightarrow> real list" where
  "spec_keypoint img bbox lm =
     [lm_x lm * real (width img) + bbox ! 0,
      lm_y lm * real (height img) + bbox ! 1,
      lm_visibility lm]"

definition spec_entries :: "estimator \<Rightarrow> image \<Rightarrow> bbox_dict \<Rightarrow> person_dict list" where
  "spec_entries est img_arr bbox_dict =
     (if bd_bbox bbox_dict ! 4 > bbox_thr est then
        (case landmarks_on_crop est img_arr (bd_bbox bbox_dict) of
           Some (img, lms) \<Rightarrow>
             [\<lparr>pd_bbox = bd_bbox bbox_dict,
               pd_keypoints = map (spec_keypoint img (bd_bbox bbox_dict)) lms\<rparr>]
         | None \<Rightarrow> [])
      else [])"

subsection \<open>A small estimator to run the model on\<close>

text \<open>
  A 4 by 6 image, and a pose model that finds two landmarks on every crop with at least
  two rows and nothing on a smaller one.
\<close>

definition example_image :: image where
  "example_image = \<lparr>height = 4, width = 6, pixel = (\<lambda>i j. (i, j, 0))\<rparr>"

definition example_process :: "image \<Rightarrow> error + landmark list option" where
  "example_process img =
     Inr (if height img < 2 then None
          else Some [\<lparr>lm_x = 1 / 2, lm_y = 1 / 4, lm_z = 0, lm_visibility = 1\<rparr>,
                     \<lparr>lm_x = 1, lm_y = 0, lm_z = 0, lm_visibility = 1 / 2\<rparr>])"

section \<open>BottomUpMviewMpersonDataset\<close>

subsection \<open>Tensors and cameras\<close>

text \<open>A tensor: its shape and its entries in row-major order.\<close>

record tensor =
  shape :: "nat list"
  entries :: "real list"

text \<open>
  \<open>torch.stack\<close> raises \<open>RuntimeError\<close> on an empty list and on tensors of different
  shapes; otherwise the result has one more leading dimension.
\<close>

definition torch_stack :: "tensor list \<Rightarrow> error + tensor" where
  "torch_stack ts =
     (case ts of
        [] \<Rightarrow> Inl RuntimeError
      | t # rest \<Rightarrow>
          if \<forall>u\<in>set rest. shape u = shape t
          then Inr \<lparr>shape = length ts # shape t, entries = concat (map entries ts)\<rparr>
          else Inl RuntimeError)"

text \<open>\<open>torch.tensor\<close> of a list of floats, and of a list of lists (ragged: \<open>ValueError\<close>).\<close>

definition torch_tensor_vec :: "real list \<Rightarrow> tensor" where
  "torch_tensor_vec v = \<lparr>shape = [length v], entries = v\<rparr>"

definition torch_tensor_mat :: "real list list \<Rightarrow> error + tensor" where
  "torch_tensor_mat m =
     (case m of
        [] \<Rightarrow> Inr \<lparr>shape = [0], entries = []\<rparr>
      | row # rest \<Rightarrow>
          if \<forall>r\<in>set rest. length r = length row
          then Inr \<lparr>shape = [length m, length row], entries = concat m\<rparr>
          else Inl ValueError)"

text \<open>
  The camera object comes from the xrprimer library and is described by what its getters
  return: \<open>get_intrinsic(k_dim)\<close> a matrix (or an exception for a dimension it does not
  support), \<open>get_extrinsic_r()\<close> a matrix, \<open>get_extrinsic_t()\<close> the translation
  vector, a flat list of floats; \<open>width\<close> and \<open>height\<close> are ints.
\<close>

record fisheye_param =
  get_intrinsic :: "int \<Rightarrow> error + real list list"
  get_extrinsic_r :: "real list list"
  get_extrinsic_t :: "real list"
  cam_width :: int
  cam_height :: int

subsection \<open>The dataset object\<close>

text \<open>
  A converted detection record: per joint the array of candidates (one row per candidate),
  per limb the array of affinity scores. An array is the list of its rows. The records the
  converter returns are held by value: each joint slot has an array of its own.
\<close>

record detection =
  joints :: "real list list list"
  pafs :: "real list list list"

text \<open>
  The fields of \<open>self\<close> the two methods read or write. The parent class
  \<open>MviewMpersonDataset\<close> lies outside the two modules verified here: what it sets up
  is taken as it is found, \<open>len\<close> for \<open>len(self)\<close> and \<open>process_index_mapping\<close> for the method of
  that name, which may raise. \<open>gt3d\<close> holds, per scene, the array
  \<open>get_keypoints()\<close> as the list of its frames. An attribute that is not set yet is
  \<open>None\<close>.
\<close>

record dataset =
  data_root :: string
  meta_path :: string
  shuffled :: bool
  kps2d_convention :: string
  cam_k_dim :: int
  img_pipeline :: "string \<Rightarrow> error + tensor"
  len :: int
  process_index_mapping :: "int \<Rightarrow> error + int \<times> int \<times> bool"
  n_scene :: int
  image_list :: "string list list list"
  fisheye_params :: "fisheye_param list list"
  gt3d :: "tensor list list"
  n_views :: "nat option"
  percep_keypoints2d :: "detection list list list option"

text \<open>
  \<open>kw_data\<close> is first bound to the empty dict and then to a list; the value keeps the
  Python type apart.
\<close>

datatype kw_data = KwDict "(string \<times> detection) list" | KwList "detection list"

text \<open>The tuple \<open>__getitem__\<close> returns, with the names of the source's variables.\<close>

record item =
  mview_img_tensor :: tensor
  k_tensor :: tensor
  r_tensor :: tensor
  t_tensor :: tensor
  kps3d :: tensor
  end_of_clip :: bool
  kw :: kw_data

text \<open>\<open>os.path.join\<close> of two components on POSIX.\<close>

definition os_path_join :: "string \<Rightarrow> string \<Rightarrow> string" where
  "os_path_join a b =
     (if b \<noteq> [] \<and> hd b = CHR ''/'' then b
      else if a = [] \<or> last a = CHR ''/'' then a @ b
      else a @ ''/'' @ b)"

subsection \<open>getitem\<close>

text \<open>The loop over \<open>img_paths\<close> that fills \<open>mview_img_list\<close>.\<close>

fun load_images :: "dataset \<Rightarrow> string list \<Rightarrow> error + tensor list" where
  "load_images self [] = Inr []"
| "load_images self (rela_path # rest) =
     err_bind (img_pipeline self (os_path_join (data_root self) rela_path)) (\<lambda>img_tensor.
     err_bind (load_images self rest) (\<lambda>mview_img_list.
       Inr (img_tensor # mview_img_list)))"

text \<open>The loop over the cameras of the scene that fills \<open>k_list\<close>, \<open>r_list\<close>, \<open>t_list\<close>.\<close>

fun camera_lists ::
  "dataset \<Rightarrow> fisheye_param list \<Rightarrow> error + tensor list \<times> tensor list \<times> tensor list" where
  "camera_lists self [] = Inr ([], [], [])"
| "camera_lists self (fisheye_param # rest) =
     err_bind (get_intrinsic fisheye_param (cam_k_dim self)) (\<lambda>intrinsic.
     err_bind (torch_tensor_mat intrinsic) (\<lambda>k.
     err_bind (torch_tensor_mat (get_extrinsic_r fisheye_param)) (\<lambda>r.
     err_bind (camera_lists self rest) (\<lambda>(k_list, r_list, t_list).
       Inr (k # k_list, r # r_list,
            torch_tensor_vec (get_extrinsic_t fisheye_param) # t_list)))))"

text \<open>The loop \<open>for view_idx in range(n_view)\<close> that fills \<open>mview_kps2d_list\<close>.\<close>

fun collect_views ::
  "detection list list \<Rightarrow> int \<Rightarrow> nat list \<Rightarrow> error + detection list" where
  "collect_views mview_keypoints2d_list frame_idx [] = Inr []"
| "collect_views mview_keypoints2d_list frame_idx (view_idx # rest) =
     err_bind (nth_err mview_keypoints2d_list view_idx) (\<lambda>view_kps2d.
     err_bind (py_getitem view_kps2d frame_idx) (\<lambda>kps2d.
     err_bind (collect_views mview_keypoints2d_list frame_idx rest) (\<lambda>mview_kps2d_list.
       Inr (kps2d # mview_kps2d_list))))"

definition getitem :: "dataset \<Rightarrow> int \<Rightarrow> error + item" where
  "getitem self index =
     (if index \<ge> len self then Inl StopIteration
      else
        err_bind (process_index_mapping self index) (\<lambda>(scene_idx, frame_idx, eoc).
        err_bind (py_getitem (image_list self) scene_idx) (\<lambda>scene_images.
        err_bind (py_getitem scene_images frame_idx) (\<lambda>img_paths.
        err_bind (load_images self img_paths) (\<lambda>mview_img_list.
        err_bind (torch_stack mview_img_list) (\<lambda>img_t.
        err_bind (py_getitem (fisheye_params self) scene_idx) (\<lambda>cameras.
        err_bind (camera_lists self cameras) (\<lambda>(k_list, r_list, t_list).
        err_bind (torch_stack k_list) (\<lambda>k_t.
        err_bind (torch_stack r_list) (\<lambda>r_t.
        err_bind (torch_stack t_list) (\<lambda>t_t.
        err_bind (py_getitem (gt3d self) scene_idx) (\<lambda>keypoints3d.
        err_bind (py_getitem keypoints3d frame_idx) (\<lambda>kps.
        err_bind (case percep_keypoints2d self of
                    None \<Rightarrow> Inl AttributeError
                  | Some percep \<Rightarrow> py_getitem percep scene_idx) (\<lambda>mview_keypoints2d_list.
        err_bind (collect_views mview_keypoints2d_list frame_idx [0..<hd (shape img_t)])
          (\<lambda>mview_kps2d_list.
             Inr \<lparr>mview_img_tensor = img_t, k_tensor = k_t, r_tensor = r_t, t_tensor = t_t,
                  kps3d = kps, end_of_clip = (eoc \<and> \<not> shuffled self),
                  kw = KwList mview_kps2d_list\<rparr>)))))))))))))))"


subsection \<open>load_perception_2d\<close>

text \<open>A parsed JSON document; an object keeps its members in the order of the file.\<close>

datatype json =
    JNull | JBool bool | JNum real | JStr string
  | JArr "json list" | JObj "(string \<times> json) list"

text \<open>
  \<open>v[key]\<close> with a string key: a dict gives the member (the last one of that name, as
  \<open>json.load\<close> keeps it) or raises \<open>KeyError\<close>; any other value raises \<open>TypeError\<close>.
\<close>

definition json_member :: "json \<Rightarrow> string \<Rightarrow> error + json" where
  "json_member v key =
     (case v of
        JObj members \<Rightarrow>
          (case map_of (rev members) key of None \<Rightarrow> Inl KeyError | Some m \<Rightarrow> Inr m)
      | _ \<Rightarrow> Inl TypeError)"

text \<open>\<open>len(v)\<close>: lists, strings and dicts have a length, the other values raise.\<close>

definition json_len :: "json \<Rightarrow> error + nat" where
  "json_len v =
     (case v of
        JArr xs \<Rightarrow> Inr (length xs)
      | JStr s \<Rightarrow> Inr (length s)
      | JObj members \<Rightarrow> Inr (length (remdups (map fst members)))
      | _ \<Rightarrow> Inl TypeError)"

text \<open>
  \<open>v[i]\<close> with an index from \<open>range(len(v))\<close>: an element of a list, a character of a
  string; a dict has string keys only and raises \<open>KeyError\<close>.
\<close>

definition json_item :: "json \<Rightarrow> nat \<Rightarrow> error + json" where
  "json_item v i =
     (case v of
        JArr xs \<Rightarrow> nth_err xs i
      | JStr s \<Rightarrow> (if i < length s then Inr (JStr [s ! i]) else Inl IndexError)
      | JObj members \<Rightarrow> Inl KeyError
      | _ \<Rightarrow> Inl TypeError)"

text \<open>\<open>str(n)\<close> for the scene index in the f-string.\<close>

fun str_nat :: "nat \<Rightarrow> string" where
  "str_nat n =
     (if n < 10 then [''0123456789'' ! n]
      else str_nat (n div 10) @ [''0123456789'' ! (n mod 10)])"

declare str_nat.simps [simp del]

text \<open>\<open>os.path.join(self.meta_path, f'scene_{scene_idx}', "kps2d_paf.json")\<close>.\<close>

definition scene_file :: "dataset \<Rightarrow> nat \<Rightarrow> string" where
  "scene_file self scene_idx =
     os_path_join (os_path_join (meta_path self) (''scene_'' @ str_nat scene_idx))
       ''kps2d_paf.json''"

text \<open>
  What lies outside the method. \<open>files\<close> is the file system as \<open>open\<close> and
  \<open>json.load\<close> see it: no entry for a path that cannot be opened, and otherwise the
  parsed document or the exception of the parser. \<open>convert_bottom_up_kps_paf\<close> is a
  function of the convention module, outside the two modules verified here; it is
  applied to the detections of one view, the source convention as found in
  the file, the target convention and the flag \<open>approximate\<close>, and may raise.
\<close>

record world =
  files :: "string \<Rightarrow> (error + json) option"
  convert_bottom_up_kps_paf :: "json \<Rightarrow> json \<Rightarrow> string \<Rightarrow> bool \<Rightarrow> error + detection list"

text \<open>
  \<open>arr[:, c] = arr[:, c] * f\<close> on an array with at least one row: numpy raises
  \<open>IndexError\<close> when the array has no column \<open>c\<close>.
\<close>

definition scale_column :: "nat \<Rightarrow> real \<Rightarrow> real list list \<Rightarrow> error + real list list" where
  "scale_column c f arr =
     (if \<forall>row\<in>set arr. c < length row
      then Inr (map (\<lambda>row. row[c := row ! c * f]) arr)
      else Inl IndexError)"

text \<open>The body of the loop over \<open>joint_id\<close>: the two assignments under the \<open>if\<close>.\<close>

definition resize_joint :: "int \<times> int \<Rightarrow> real list list \<Rightarrow> error + real list list" where
  "resize_joint img_size arr =
     (if length arr > 0 then
        err_bind (scale_column 0 (real_of_int (fst img_size - 1)) arr) (\<lambda>arr0.
          scale_column 1 (real_of_int (snd img_size - 1)) arr0)
      else Inr arr)"

fun resize_joints :: "int \<times> int \<Rightarrow> real list list list \<Rightarrow> error + real list list list" where
  "resize_joints img_size [] = Inr []"
| "resize_joints img_size (arr # rest) =
     err_bind (resize_joint img_size arr) (\<lambda>arr'.
     err_bind (resize_joints img_size rest) (\<lambda>rest'.
       Inr (arr' # rest')))"

text \<open>
  The loop \<open>for frame_id in range(len(detections))\<close> over the converted records, which
  are updated in place; \<open>convert_detections[frame_id]\<close> raises \<open>IndexError\<close> when the
  converter returned fewer records.
\<close>

fun resize_frames ::
  "int \<times> int \<Rightarrow> nat list \<Rightarrow> detection list \<Rightarrow> error + detection list" where
  "resize_frames img_size [] convert_detections = Inr convert_detections"
| "resize_frames img_size (frame_id # rest) convert_detections =
     err_bind (nth_err convert_detections frame_id) (\<lambda>d.
     err_bind (resize_joints img_size (joints d)) (\<lambda>js.
       resize_frames img_size rest (convert_detections[frame_id := d\<lparr>joints := js\<rparr>])))"

text \<open>The body of the loop over \<open>view_idx\<close>: the entry appended to \<open>mview_kps2d\<close>.\<close>

definition load_view ::
  "world \<Rightarrow> dataset \<Rightarrow> nat \<Rightarrow> json \<Rightarrow> json \<Rightarrow> nat \<Rightarrow> error + detection list" where
  "load_view w self scene_idx src_convention multi_detections view_idx =
     err_bind (nth_err (fisheye_params self) scene_idx) (\<lambda>cameras.
     err_bind (nth_err cameras view_idx) (\<lambda>camera.
       let img_size = (cam_width camera, cam_height camera) in
       err_bind (json_item multi_detections view_idx) (\<lambda>detections.
       err_bind (convert_bottom_up_kps_paf w detections src_convention
                   (kps2d_convention self) True) (\<lambda>convert_detections.
       err_bind (json_len detections) (\<lambda>n_frame.
         resize_frames img_size [0..<n_frame] convert_detections)))))"

fun load_views ::
  "world \<Rightarrow> dataset \<Rightarrow> nat \<Rightarrow> json \<Rightarrow> json \<Rightarrow> nat list \<Rightarrow> error + detection list list" where
  "load_views w self scene_idx src_convention multi_detections [] = Inr []"
| "load_views w self scene_idx src_convention multi_detections (view_idx # rest) =
     err_bind (load_view w self scene_idx src_convention multi_detections view_idx)
       (\<lambda>convert_detections.
     err_bind (load_views w self scene_idx src_convention multi_detections rest)
       (\<lambda>mview_kps2d. Inr (convert_detections # mview_kps2d)))"

text \<open>
  \<open>open\<close>, \<open>json.load\<close> and the two subscripts of \<open>json_data\<close> at the head of the
  loop over scenes.
\<close>

definition read_scene :: "world \<Rightarrow> dataset \<Rightarrow> nat \<Rightarrow> error + json \<times> json" where
  "read_scene w self scene_idx =
     (case files w (scene_file self scene_idx) of
        None \<Rightarrow> Inl FileNotFoundError
      | Some loaded \<Rightarrow>
          err_bind loaded (\<lambda>json_data.
          err_bind (json_member json_data ''convention'') (\<lambda>src_convention.
          err_bind (json_member json_data ''data'') (\<lambda>multi_detections.
            Inr (src_convention, multi_detections)))))"

text \<open>
  The body of the loop over scenes: the entry appended to \<open>mscene_keypoints_list\<close> or
  the exception, and \<open>self\<close> as the body leaves it (\<open>self.n_views\<close> is assigned on the
  way).
\<close>

definition load_scene ::
  "world \<Rightarrow> dataset \<Rightarrow> nat \<Rightarrow> (error + detection list list) \<times> dataset" where
  "load_scene w self scene_idx =
     (case read_scene w self scene_idx of
        Inl e \<Rightarrow> (Inl e, self)
      | Inr (src_convention, multi_detections) \<Rightarrow>
          (case json_len multi_detections of
             Inl e \<Rightarrow> (Inl e, self)
           | Inr n \<Rightarrow>
               (load_views w (self\<lparr>n_views := Some n\<rparr>) scene_idx src_convention
                  multi_detections [0..<n],
                self\<lparr>n_views := Some n\<rparr>)))"

fun load_scenes ::
  "world \<Rightarrow> dataset \<Rightarrow> nat list \<Rightarrow> detection list list list
     \<Rightarrow> (error + detection list list list) \<times> dataset" where
  "load_scenes w self [] mscene_keypoints_list = (Inr mscene_keypoints_list, self)"
| "load_scenes w self (scene_idx # rest) mscene_keypoints_list =
     (case load_scene w self scene_idx of
        (Inl e, self') \<Rightarrow> (Inl e, self')
      | (Inr mview_kps2d, self') \<Rightarrow>
          load_scenes w self' rest (mscene_keypoints_list @ [mview_kps2d]))"

text \<open>
  The method: the exception that escapes, if any, and \<open>self\<close> afterwards. The last
  statement assigns \<open>self.percep_keypoints2d\<close>.
\<close>

definition load_perception_2d :: "world \<Rightarrow> dataset \<Rightarrow> error option \<times> dataset" where
  "load_perception_2d w self =
     (case load_scenes w self [0..<nat (n_scene self)] [] of
        (Inl e, self') \<Rightarrow> (Some e, self')
      | (Inr mscene_keypoints_list, self') \<Rightarrow>
          (None, self'\<lparr>percep_keypoints2d := Some mscene_keypoints_list\<rparr>))"


subsection \<open>What the specification says of the resize step\<close>



subsection \<open>What the specification says of the files read\<close>

text \<open>
  Two outcomes of opening and parsing a file are the same to a reader of the keys
  \<open>convention\<close> and \<open>data\<close> only: they are equal, or both are documents with the same
  two members (or the same failure to get them).
\<close>

definition same_reads :: "(error + json) option \<Rightarrow> (error + json) option \<Rightarrow> bool" where
  "same_reads a b \<longleftrightarrow>
     a = b
   \<or> (case (a, b) of
        (Some (Inr doc), Some (Inr doc')) \<Rightarrow>
          json_member doc ''convention'' = json_member doc' ''convention''
        \<and> json_member doc ''data'' = json_member doc' ''data''
      | _ \<Rightarrow> False)"


subsection \<open>A small dataset to run the model on\<close>

text \<open>
  One scene of two frames seen by two cameras; the second frame is the last of its clip.
  The detections of a view on disk are a list with one entry per frame, and the converter
  of the example yields one fixed record per entry.
\<close>

definition example_camera :: fisheye_param where
  "example_camera =
     \<lparr>get_intrinsic = (\<lambda>k_dim. if k_dim = 3 then Inr [[2, 0, 1], [0, 2, 1], [0, 0, 1]]
                                 else Inl ValueError),
      get_extrinsic_r = [[1, 0, 0], [0, 1, 0], [0, 0, 1]],
      get_extrinsic_t = [0, 0, 1],
      cam_width = 11, cam_height = 6\<rparr>"

definition example_detection :: detection where
  "example_detection = \<lparr>joints = [[[1 / 2, 1 / 5, 1]], []], pafs = [[[1 / 2]]]\<rparr>"

definition example_dataset :: dataset where
  "example_dataset =
     \<lparr>data_root = ''root'', meta_path = ''meta'', shuffled = False,
      kps2d_convention = ''fourdag19'', cam_k_dim = 3,
      img_pipeline = (\<lambda>path. Inr \<lparr>shape = [1, 1, 3], entries = [0, 0, 0]\<rparr>),
      len = 2,
      process_index_mapping = (\<lambda>index. Inr (0, index, index = 1)),
      n_scene = 1,
      image_list = [[[''a0.png'', ''b0.png''], [''a1.png'', ''b1.png'']]],
      fisheye_params = [[example_camera, example_camera]],
      gt3d = [[\<lparr>shape = [1, 1, 4], entries = [0, 0, 0, 1]\<rparr>,
               \<lparr>shape = [1, 1, 4], entries = [1, 1, 1, 1]\<rparr>]],
      n_views = None,
      percep_keypoints2d =
        Some [[[example_detection, example_detection],
               [example_detection, example_detection]]]\<rparr>"

definition example_item :: item where
  "example_item =
     \<lparr>mview_img_tensor = \<lparr>shape = [2, 1, 1, 3], entries = [0, 0, 0, 0, 0, 0]\<rparr>,
      k_tensor = \<lparr>shape = [2, 3, 3],
                  entries = [2, 0, 1, 0, 2, 1, 0, 0, 1, 2, 0, 1, 0, 2, 1, 0, 0, 1]\<rparr>,
      r_tensor = \<lparr>shape = [2, 3, 3],
                  entries = [1, 0, 0, 0, 1, 0, 0, 0, 1, 1, 0, 0, 0, 1, 0, 0, 0, 1]\<rparr>,
      t_tensor = \<lparr>shape = [2, 3], entries = [0, 0, 1, 0, 0, 1]\<rparr>,
      kps3d = \<lparr>shape = [1, 1, 4], entries = [1, 1, 1, 1]\<rparr>,
      end_of_clip = True,
      kw = KwList [example_detection, example_detection]\<rparr>"

definition example_json :: json where
  "example_json =
     JObj [(''convention'', JStr ''openpose_25''),
           (''data'', JArr [JArr [JNull], JArr [JNull]])]"

definition example_world :: world where
  "example_world =
     \<lparr>files = (\<lambda>path. if path = ''meta/scene_0/kps2d_paf.json'' then Some (Inr example_json)
                       else None),
      convert_bottom_up_kps_paf =
        (\<lambda>detections src dst approximate.
           case detections of
             JArr frames \<Rightarrow> Inr (map (\<lambda>_. example_detection) frames)
           | _ \<Rightarrow> Inl TypeError)\<rparr>"


section \<open>Properties of MediapipeEstimator\<close>

subsection \<open>Exceptions and shapes\<close>

lemma err_bind_Inr_iff:
  "err_bind m f = Inr r \<longleftrightarrow> (\<exists>v. m = Inr v \<and> f v = Inr r)"
  by (cases m) (simp_all add: err_bind_def)

lemma err_bind_simps [simp]:
  "err_bind (Inl e) f = Inl e" "err_bind (Inr v) f = f v"
  by (simp_all add: err_bind_def)

lemma nth_err_Inr_iff: "nth_err xs i = Inr v \<longleftrightarrow> i < length xs \<and> v = xs ! i"
  by (auto simp: nth_err_def)

lemma infer_single_bbox_rows:
  assumes "infer_single_bbox est img_arr bd = Inr new" "p \<in> set new" "kp \<in> set (pd_keypoints p)"
  shows "length kp = 3"
  using assms
  by (auto simp: infer_single_bbox_def Let_def err_bind_Inr_iff kps_list_of_def
           split: if_splits option.splits)

lemma infer_single_bbox_length:
  "infer_single_bbox est img_arr bd = Inr new \<Longrightarrow> length new \<le> 1"
  by (auto simp: infer_single_bbox_def Let_def err_bind_Inr_iff split: if_splits option.splits)

lemma infer_single_img_rows:
  "infer_single_img est img_arr bds = Inr res \<Longrightarrow> p \<in> set res \<Longrightarrow> kp \<in> set (pd_keypoints p) \<Longrightarrow> length kp = 3"
proof (induction bds arbitrary: res)
  case Nil
  then show ?case by simp
next
  case (Cons bd bds)
  from Cons.prems(1) obtain new rest where
    n: "infer_single_bbox est img_arr bd = Inr new" and
    r: "infer_single_img est img_arr bds = Inr rest" and
    res: "res = new @ rest"
    by (auto simp: err_bind_Inr_iff)
  from Cons.prems(2) res have "p \<in> set new \<or> p \<in> set rest" by simp
  then show ?case
    using infer_single_bbox_rows[OF n _ Cons.prems(3)] Cons.IH[OF r _ Cons.prems(3)] by blast
qed

lemma infer_single_img_length:
  "infer_single_img est img_arr bds = Inr res \<Longrightarrow> length res \<le> length bds"
proof (induction bds arbitrary: res)
  case Nil
  then show ?case by simp
next
  case (Cons bd bds)
  from Cons.prems(1) obtain new rest where
    n: "infer_single_bbox est img_arr bd = Inr new" and
    r: "infer_single_img est img_arr bds = Inr rest" and
    res: "res = new @ rest"
    by (auto simp: err_bind_Inr_iff)
  show ?case using infer_single_bbox_length[OF n] Cons.IH[OF r] res by simp
qed

lemma select_bboxes_props:
  "select_bboxes idx bboxes = Inr sel \<Longrightarrow>
     (sel \<noteq> [] \<longleftrightarrow> (\<exists>bbox\<in>set bboxes. bbox ! 4 > 0)) \<and> length sel \<le> length bboxes"
proof (induction bboxes arbitrary: idx sel)
  case Nil
  then show ?case by simp
next
  case (Cons bbox rest)
  from Cons.prems obtain score sel' where
    s: "nth_err bbox 4 = Inr score" and
    r: "select_bboxes (Suc idx) rest = Inr sel'" and
    sel: "sel = (if score > 0 then \<lparr>bd_bbox = bbox, bd_id = idx\<rparr> # sel' else sel')"
    by (auto simp: err_bind_Inr_iff)
  from s have sc: "score = bbox ! 4" by (simp add: nth_err_Inr_iff)
  show ?case using Cons.IH[OF r] sel sc by auto
qed

lemma broadcast_bbox_length: "broadcast_bbox b = Inr b' \<Longrightarrow> length b' = 5"
  by (auto simp: broadcast_bbox_def split: if_splits)

lemma broadcast_kps_shape:
  "broadcast_kps n k = Inr k' \<Longrightarrow> length k' = n \<and> set k' \<subseteq> set k"
  by (cases k) (auto simp: broadcast_kps_def split: if_splits)

lemma assign_results_shape:
  assumes "assign_results n idx ps (B, K) = Inr (B', K')"
    and "\<forall>p\<in>set ps. \<forall>kp\<in>set (pd_keypoints p). length kp = 3"
    and "\<forall>b\<in>set B. length b = 5"
    and "\<forall>k\<in>set K. length k = n \<and> (\<forall>kp\<in>set k. length kp = 3)"
  shows "length B' = length B \<and> length K' = length K \<and> (\<forall>b\<in>set B'. length b = 5)
       \<and> (\<forall>k\<in>set K'. length k = n \<and> (\<forall>kp\<in>set k. length kp = 3))"
  using assms
proof (induction ps arbitrary: idx B K)
  case Nil
  then show ?case by simp
next
  case (Cons p ps)
  from Cons.prems(1) obtain bbox keypoints where
    i: "idx < length B" and
    b: "broadcast_bbox (pd_bbox p) = Inr bbox" and
    k: "broadcast_kps n (pd_keypoints p) = Inr keypoints" and
    r: "assign_results n (Suc idx) ps (B[idx := bbox], K[idx := keypoints]) = Inr (B', K')"
    by (auto simp: err_bind_Inr_iff split: if_splits)
  have 1: "\<forall>p\<in>set ps. \<forall>kp\<in>set (pd_keypoints p). length kp = 3"
    using Cons.prems(2) by simp
  have 2: "\<forall>b\<in>set (B[idx := bbox]). length b = 5"
    using Cons.prems(3) broadcast_bbox_length[OF b] set_update_subset_insert[of B idx bbox]
    by auto
  have kk: "length keypoints = n \<and> (\<forall>kp\<in>set keypoints. length kp = 3)"
    using broadcast_kps_shape[OF k] Cons.prems(2) by auto
  have 3: "\<forall>k\<in>set (K[idx := keypoints]). length k = n \<and> (\<forall>kp\<in>set k. length kp = 3)"
    using Cons.prems(4) kk set_update_subset_insert[of K idx keypoints] by auto
  from Cons.IH[OF r 1 2 3] show ?case by simp
qed

lemma assign_results_frame:
  assumes "assign_results n idx ps (B, K) = Inr (B', K')"
    and "i < idx \<or> idx + length ps \<le> i"
  shows "B' ! i = B ! i \<and> K' ! i = K ! i"
  using assms
proof (induction ps arbitrary: idx B K)
  case Nil
  then show ?case by simp
next
  case (Cons p ps)
  from Cons.prems(1) obtain bbox keypoints where
    r: "assign_results n (Suc idx) ps (B[idx := bbox], K[idx := keypoints]) = Inr (B', K')"
    by (auto simp: err_bind_Inr_iff split: if_splits)
  have "i < Suc idx \<or> Suc idx + length ps \<le> i" using Cons.prems(2) by auto
  from Cons.IH[OF r this] Cons.prems(2) show ?case by auto
qed

lemma infer_array_frame_shape:
  assumes "infer_array_frame n est img_arr bboxes = Inr (k, b)"
  shows "if \<exists>bbox\<in>set bboxes. bbox ! 4 > 0
         then length k = length bboxes
            \<and> (\<forall>person\<in>set k. length person = n \<and> (\<forall>kp\<in>set person. length kp = 3))
            \<and> length b = length bboxes \<and> (\<forall>bbox\<in>set b. length bbox = 5)
         else k = [] \<and> b = []"
proof -
  from assms obtain sel where s: "select_bboxes 0 bboxes = Inr sel"
    by (auto simp: infer_array_frame_def err_bind_Inr_iff)
  note sp = select_bboxes_props[OF s]
  show ?thesis
  proof (cases "sel = []")
    case True
    have "k = [] \<and> b = []"
      using assms s True by (simp add: infer_array_frame_def)
    moreover have "\<not> (\<exists>bbox\<in>set bboxes. bbox ! 4 > 0)"
      using sp True by simp
    ultimately show ?thesis by simp
  next
    case False
    with assms s obtain pose_results where
      p: "infer_single_img est img_arr sel = Inr pose_results" and
      a: "assign_results n 0 pose_results (zeros2 (length bboxes) 5, zeros3 (length bboxes) n 3) = Inr (b, k)"
      by (auto simp: infer_array_frame_def err_bind_Inr_iff)
    have 1: "\<forall>p\<in>set pose_results. \<forall>kp\<in>set (pd_keypoints p). length kp = 3"
      using infer_single_img_rows[OF p] by blast
    have 2: "\<forall>r\<in>set (zeros2 (length bboxes) 5). length r = 5"
      by (simp add: zeros2_def)
    have 3: "\<forall>r\<in>set (zeros3 (length bboxes) n 3). length r = n \<and> (\<forall>kp\<in>set r. length kp = 3)"
      by (simp add: zeros3_def)
    have 4: "length (zeros2 (length bboxes) 5) = length bboxes"
       "length (zeros3 (length bboxes) n 3) = length bboxes"
      by (simp_all add: zeros2_def zeros3_def)
    from assign_results_shape[OF a 1 2 3] 4 have sh:
      "length b = length bboxes \<and> length k = length bboxes \<and> (\<forall>r\<in>set b. length r = 5)
       \<and> (\<forall>r\<in>set k. length r = n \<and> (\<forall>kp\<in>set r. length kp = 3))"
      by simp
    have ex: "\<exists>bbox\<in>set bboxes. bbox ! 4 > 0" using sp False by simp
    show ?thesis using sh by (simp only: ex if_True) simp
  qed
qed

lemma infer_array_frame_zero:
  assumes "infer_array_frame n est img_arr bboxes = Inr (k, b)"
    and "select_bboxes 0 bboxes = Inr sel" "sel \<noteq> []"
    and "infer_single_img est img_arr sel = Inr pose_results"
    and "length pose_results \<le> i" "i < length bboxes"
  shows "k ! i = replicate n [0, 0, 0] \<and> b ! i = [0, 0, 0, 0, 0]"
proof -
  from assms(1-4) have
    a: "assign_results n 0 pose_results (zeros2 (length bboxes) 5, zeros3 (length bboxes) n 3) = Inr (b, k)"
    by (auto simp: infer_array_frame_def err_bind_Inr_iff)
  have "b ! i = zeros2 (length bboxes) 5 ! i \<and> k ! i = zeros3 (length bboxes) n 3 ! i"
    using assign_results_frame[OF a, of i] assms(5) by simp
  with assms(6) show ?thesis
    by (simp add: zeros2_def zeros3_def eval_nat_numeral)
qed

lemma infer_array_loop_pointwise:
  "infer_array_loop n est imgs bl = Inr (ks, bs) \<Longrightarrow>
     length ks = length imgs \<and> length bs = length imgs \<and> length imgs \<le> length bl
     \<and> (\<forall>f<length imgs. infer_array_frame n est (imgs ! f) (bl ! f) = Inr (ks ! f, bs ! f))"
proof (induction n est imgs bl arbitrary: ks bs rule: infer_array_loop.induct)
  case (1 n est bl)
  then show ?case by simp
next
  case (2 n est img imgs)
  then show ?case by simp
next
  case (3 n est img imgs bboxes bl)
  from "3.prems" obtain fk fb ks' bs' where
    f: "infer_array_frame n est img bboxes = Inr (fk, fb)" and
    r: "infer_array_loop n est imgs bl = Inr (ks', bs')" and
    e: "ks = fk # ks'" "bs = fb # bs'"
    by (auto simp: err_bind_Inr_iff)
  from "3.IH"[OF r] have ih:
    "length ks' = length imgs \<and> length bs' = length imgs \<and> length imgs \<le> length bl
     \<and> (\<forall>f<length imgs. infer_array_frame n est (imgs ! f) (bl ! f) = Inr (ks' ! f, bs' ! f))"
    by simp
  have "infer_array_frame n est ((img # imgs) ! f) ((bboxes # bl) ! f) = Inr (ks ! f, bs ! f)"
    if "f < length (img # imgs)" for f
  proof (cases f)
    case 0
    then show ?thesis using f e by simp
  next
    case (Suc g)
    then show ?thesis using ih e that by simp
  qed
  then show ?case using ih e by simp
qed

subsection \<open>Chunked inference\<close>

lemma slice_bound_nat: "slice_bound n (int a) = min a n"
  by (simp add: slice_bound_def)

lemma py_slice_nat: "py_slice xs (int s) (int e) = take (e - s) (drop s xs)"
proof (cases "s \<le> length xs")
  case True
  have "take (min e (length xs) - s) (drop s xs) = take (e - s) (drop s xs)"
  proof (cases "e \<le> length xs")
    case True
    then show ?thesis by (simp add: min_def)
  next
    case False
    then show ?thesis using \<open>s \<le> length xs\<close> by (simp add: min_def)
  qed
  then show ?thesis using True by (simp add: py_slice_def slice_bound_nat Let_def min_def)
next
  case False
  then show ?thesis by (simp add: py_slice_def slice_bound_nat Let_def)
qed

lemma err_bind_assoc:
  "err_bind (err_bind m f) g = err_bind m (\<lambda>v. err_bind (f v) g)"
  by (cases m) simp_all

lemma err_bind_return: "err_bind m Inr = m"
  by (cases m) simp_all

lemma infer_array_loop_append:
  "infer_array_loop n est (xs @ ys) bl =
     err_bind (infer_array_loop n est xs (take (length xs) bl)) (\<lambda>(k1, b1).
     err_bind (infer_array_loop n est ys (drop (length xs) bl)) (\<lambda>(k2, b2).
       Inr (k1 @ k2, b1 @ b2)))"
proof (induction xs arbitrary: bl)
  case Nil
  show ?case by (simp add: err_bind_return)
next
  case (Cons x xs)
  show ?case
  proof (cases bl)
    case Nil
    then show ?thesis by simp
  next
    case (Cons b bl')
    show ?thesis
    proof (cases "infer_array_frame n est x b")
      case (Inl e)
      then show ?thesis using Cons by simp
    next
      case (Inr fr)
      obtain fk fb where fr: "fr = (fk, fb)" by (cases fr)
      show ?thesis
      proof (cases "infer_array_loop n est xs (take (length xs) bl')")
        case (Inl e)
        then show ?thesis using Cons Inr fr Cons.IH[of bl'] by simp
      next
        case r1: (Inr r1)
        obtain k1 b1 where r1p: "r1 = (k1, b1)" by (cases r1)
        show ?thesis
        proof (cases "infer_array_loop n est ys (drop (length xs) bl')")
          case (Inl e)
          then show ?thesis using Cons Inr fr r1 r1p Cons.IH[of bl'] by simp
        next
          case r2: (Inr r2)
          obtain k2 b2 where r2p: "r2 = (k2, b2)" by (cases r2)
          show ?thesis using Cons Inr fr r1 r1p r2 r2p Cons.IH[of bl'] by simp
        qed
      qed
    qed
  qed
qed

lemma infer_array_loop_take:
  "infer_array_loop n est xs (take (length xs) bl) = infer_array_loop n est xs bl"
proof -
  have "infer_array_loop n est (xs @ []) bl =
     err_bind (infer_array_loop n est xs (take (length xs) bl)) (\<lambda>(k1, b1).
     err_bind (infer_array_loop n est [] (drop (length xs) bl)) (\<lambda>(k2, b2).
       Inr (k1 @ k2, b1 @ b2)))"
    by (rule infer_array_loop_append)
  also have "\<dots> = infer_array_loop n est xs (take (length xs) bl)"
    by (cases "infer_array_loop n est xs (take (length xs) bl)") auto
  finally show ?thesis by simp
qed


lemma infer_array_eq:
  "infer_array gkn est imgs bl dt rh =
     err_bind (infer_array_loop (gkn (get_keypoints_convention_name est)) est imgs bl)
       (\<lambda>(k, b). Inr (k, None, b))"
  by (simp add: infer_array_def)

text \<open>
  The start indices \<open>s, s + B, ...\<close> below \<open>n\<close>, which \<open>range\<close> produces from
  \<open>s = 0\<close>: the first one, then those from \<open>s + B\<close> on.
\<close>

lemma starts_step:
  assumes "0 < B" "s < n"
  shows "map (\<lambda>k. s + k * B) [0..<(n - s + B - 1) div B]
       = s # map (\<lambda>k. (s + B) + k * B) [0..<(n - (s + B) + B - 1) div B]"
proof -
  have d: "(n - s + B - 1) div B = Suc ((n - (s + B) + B - 1) div B)"
  proof (cases "s + B \<le> n")
    case True
    then obtain d where n: "n = s + B + d" using le_Suc_ex by blast
    have "(d + B - 1 + B) div B = Suc ((d + B - 1) div B)"
      using assms(1) by (simp only: div_add_self2)
    moreover have "n - s + B - 1 = d + B - 1 + B" using assms(1) n by simp
    moreover have "n - (s + B) + B - 1 = d + B - 1" using n by simp
    ultimately show ?thesis by (simp only:)
  next
    case False
    then have 1: "n - (s + B) = 0" by simp
    have 2: "(B - 1) div B = 0" using assms by simp
    have "B * 1 \<le> n - s + B - 1" "n - s + B - 1 < B * Suc 1" using False assms by simp_all
    then have 3: "(n - s + B - 1) div B = 1"
      by (rule div_nat_eqI)
    have "(0 + B - 1) div B = 0" using 2 by simp
    then show ?thesis unfolding 1 3 by simp
  qed
  have "[0..<Suc m] = 0 # map Suc [0..<m]" for m
    by (simp add: upt_conv_Cons map_Suc_upt del: upt_Suc)
  then have "map (\<lambda>k. s + k * B) [0..<Suc m] = s # map (\<lambda>k. (s + B) + k * B) [0..<m]" for m
    by (simp add: o_def algebra_simps del: upt_Suc)
  then show ?thesis unfolding d .
qed


lemma take_drop_split: "take B (drop s F) @ drop (s + B) F = drop s F"
  using append_take_drop_id[of B "drop s F"] by (simp add: add.commute)

lemma end_idx_nat: "min (int n) (int s + int B) = int (min n (s + B))"
  by simp

lemma infer_frames_loop_from:
  assumes "0 < B"
  shows "infer_frames_loop gkn imread est F bl dt (int B)
           (map (\<lambda>k. s + k * B) [0..<(length F - s + B - 1) div B])
         = infer_array_loop (gkn (get_keypoints_convention_name est)) est
             (map imread (drop s F)) (drop s bl)"
proof (induction "length F - s" arbitrary: s rule: less_induct)
  case less
  let ?n = "length F"
  let ?nk = "gkn (get_keypoints_convention_name est)"
  show ?case
  proof (cases "s < ?n")
    case False
    then have "?n - s = 0" by simp
    moreover have "(B - 1) div B = 0" using assms by simp
    ultimately have "[0..<(?n - s + B - 1) div B] = []" by simp
    then show ?thesis using False by simp
  next
    case True
    let ?c = "min ?n (s + B) - s"
    let ?xs = "map imread (take ?c (drop s F))"
    let ?ys = "map imread (drop (s + B) F)"
    have ih: "infer_frames_loop gkn imread est F bl dt (int B)
           (map (\<lambda>k. (s + B) + k * B) [0..<(?n - (s + B) + B - 1) div B])
         = infer_array_loop ?nk est ?ys (drop (s + B) bl)"
      using less[of "s + B"] True assms by simp
    have split: "map imread (drop s F) = ?xs @ ?ys"
    proof -
      have "take ?c (drop s F) = take B (drop s F)"
        by (cases "s + B \<le> ?n") (simp_all add: min_def)
      then have "drop s F = take ?c (drop s F) @ drop (s + B) F"
        using take_drop_split[of B s F] by simp
      then have "map imread (drop s F) = map imread (take ?c (drop s F) @ drop (s + B) F)"
        by simp
      then show ?thesis by (simp only: map_append)
    qed
    have len: "length ?xs = ?c" using True by (auto simp: min_def)
    have tail: "infer_array_loop ?nk est ?ys (drop ?c (drop s bl))
              = infer_array_loop ?nk est ?ys (drop (s + B) bl)"
    proof (cases "s + B \<le> ?n")
      case True
      then show ?thesis by (simp add: min_def add.commute)
    next
      case False
      then have "?ys = []" by simp
      then show ?thesis by simp
    qed
    have rhs: "infer_array_loop ?nk est (map imread (drop s F)) (drop s bl)
             = err_bind (infer_array_loop ?nk est ?xs (take ?c (drop s bl))) (\<lambda>(k1, b1).
               err_bind (infer_array_loop ?nk est ?ys (drop (s + B) bl)) (\<lambda>(k2, b2).
                 Inr (k1 @ k2, b1 @ b2)))"
      unfolding split using infer_array_loop_append[of ?nk est ?xs ?ys "drop s bl"]
      by (simp only: len tail)
    have lhs: "infer_frames_loop gkn imread est F bl dt (int B)
                 (s # map (\<lambda>k. (s + B) + k * B) [0..<(?n - (s + B) + B - 1) div B])
             = err_bind (infer_array gkn est ?xs (take ?c (drop s bl)) dt False)
                 (\<lambda>(batch_pose_list, _, batch_boox_list).
                  err_bind (infer_array_loop ?nk est ?ys (drop (s + B) bl))
                    (\<lambda>(ret_kps_list, ret_boox_list).
                       Inr (batch_pose_list @ ret_kps_list, batch_boox_list @ ret_boox_list)))"
      by (simp only: infer_frames_loop.simps Let_def end_idx_nat py_slice_nat ih)
    have "infer_frames_loop gkn imread est F bl dt (int B)
                 (s # map (\<lambda>k. (s + B) + k * B) [0..<(?n - (s + B) + B - 1) div B])
          = infer_array_loop ?nk est (map imread (drop s F)) (drop s bl)"
      unfolding lhs rhs infer_array_eq
      by (cases "infer_array_loop ?nk est ?xs (take ?c (drop s bl))") auto
    then show ?thesis using starts_step[OF assms True] by simp
  qed
qed

lemma frame_chunks_from:
  assumes "0 < B"
  shows "concat (frame_chunks F (int B) (map (\<lambda>k. s + k * B) [0..<(length F - s + B - 1) div B]))
         = drop s F"
proof (induction "length F - s" arbitrary: s rule: less_induct)
  case less
  let ?n = "length F"
  show ?case
  proof (cases "s < ?n")
    case False
    then have "?n - s = 0" by simp
    moreover have "(B - 1) div B = 0" using assms by simp
    ultimately have "[0..<(?n - s + B - 1) div B] = []" by simp
    then show ?thesis using False by (simp add: frame_chunks_def)
  next
    case True
    have ih: "concat (frame_chunks F (int B)
                (map (\<lambda>k. (s + B) + k * B) [0..<(?n - (s + B) + B - 1) div B]))
              = drop (s + B) F"
      using less[of "s + B"] True assms by simp
    have "take (min ?n (s + B) - s) (drop s F) = take B (drop s F)"
      by (cases "s + B \<le> ?n") (simp_all add: min_def)
    then have "take (min ?n (s + B) - s) (drop s F) @ drop (s + B) F = drop s F"
      using take_drop_split[of B s F] by simp
    then have c: "py_slice F (int s) (min (int ?n) (int s + int B)) @ drop (s + B) F = drop s F"
      by (simp only: end_idx_nat py_slice_nat)
    have "concat (frame_chunks F (int B)
            (s # map (\<lambda>k. (s + B) + k * B) [0..<(?n - (s + B) + B - 1) div B])) = drop s F"
      using ih c by (simp add: frame_chunks_def)
    then show ?thesis using starts_step[OF assms True] by simp
  qed
qed

lemma infer_frames_positive:
  assumes "0 < B"
  shows "infer_frames gkn imread est F bl dt rh (Some (int B))
         = err_bind (infer_array_loop (gkn (get_keypoints_convention_name est)) est
                       (map imread F) bl)
             (\<lambda>(ret_kps_list, ret_boox_list). Inr (ret_kps_list, None, ret_boox_list))"
proof -
  have r: "py_range0 (length F) (int B)
           = Inr (map (\<lambda>k. 0 + k * B) [0..<(length F - 0 + B - 1) div B])"
    using assms by (simp add: py_range0_def)
  show ?thesis
    unfolding infer_frames_def Let_def option.case r err_bind_simps
      infer_frames_loop_from[OF assms] by simp
qed

text \<open>
  For a non-empty frame list and a batch size of at least one, the chunks the loop visits
  are consecutive and their concatenation is the frame list, and the outcome (result or
  exception) is the one of \<open>load_batch_size=None\<close>.
\<close>

lemma infer_frames_chunking_nonempty:
  assumes "frame_path_list \<noteq> []" and "1 \<le> b"
  shows "(\<exists>starts. py_range0 (length frame_path_list) b = Inr starts
            \<and> concat (frame_chunks frame_path_list b starts) = frame_path_list)
       \<and> infer_frames gkn imread est frame_path_list bbox_list dt rh (Some b)
         = infer_frames gkn imread est frame_path_list bbox_list dt rh None"
proof -
  have "b = int (nat b)" and "0 < nat b" using assms(2) by simp_all
  then obtain B where B: "b = int B" "0 < B" by blast
  let ?n = "length frame_path_list"
  have n: "0 < ?n" using assms(1) by simp
  have r: "py_range0 ?n b = Inr (map (\<lambda>k. 0 + k * B) [0..<(?n - 0 + B - 1) div B])"
    using B by (simp add: py_range0_def)
  have c: "concat (frame_chunks frame_path_list b
             (map (\<lambda>k. 0 + k * B) [0..<(?n - 0 + B - 1) div B])) = frame_path_list"
    using frame_chunks_from[OF B(2), of frame_path_list 0] B(1) by simp
  have "infer_frames gkn imread est frame_path_list bbox_list dt rh None
      = infer_frames gkn imread est frame_path_list bbox_list dt rh (Some (int ?n))"
    by (simp add: infer_frames_def)
  then have "infer_frames gkn imread est frame_path_list bbox_list dt rh (Some b)
      = infer_frames gkn imread est frame_path_list bbox_list dt rh None"
    unfolding B(1) infer_frames_positive[OF B(2)] infer_frames_positive[OF n] by simp
  with r c show ?thesis by blast
qed


subsection \<open>The claims about the estimator\<close>

lemma infer_single_bbox_spec:
  "infer_single_bbox est (Some img_arr) bd = Inr new \<Longrightarrow> new = spec_entries est img_arr bd"
  by (auto simp: infer_single_bbox_def spec_entries_def landmarks_on_crop_def Let_def
                 err_bind_Inr_iff nth_err_Inr_iff kps_list_of_def spec_keypoint_def
           split: if_splits option.splits)

text \<open>
  Claim C3. When \<open>infer_single_img\<close> returns, its result holds, in the order of
  \<open>bbox_list\<close>, one entry for each bbox with \<open>bbox[4] > self.bbox_thr\<close> on whose
  crop the pose model returns landmarks, and each keypoint of that entry is
  \<open>(landmark.x * img.shape[1] + bbox[0], landmark.y * img.shape[0] + bbox[1],
  landmark.visibility)\<close>; the other bboxes contribute nothing.
\<close>

theorem infer_single_img_rescales:
  "infer_single_img est (Some img_arr) bbox_list = Inr multi_kps2d \<Longrightarrow>
     multi_kps2d = concat (map (spec_entries est img_arr) bbox_list)"
proof (induction bbox_list arbitrary: multi_kps2d)
  case Nil
  then show ?case by simp
next
  case (Cons bd rest)
  from Cons.prems obtain new tl where
    n: "infer_single_bbox est (Some img_arr) bd = Inr new" and
    r: "infer_single_img est (Some img_arr) rest = Inr tl" and
    m: "multi_kps2d = new @ tl"
    by (auto simp: err_bind_Inr_iff)
  show ?case using infer_single_bbox_spec[OF n] Cons.IH[OF r] m by simp
qed

text \<open>
  On the example: the first bbox yields an entry, the second has a crop of one row with no
  landmarks, the third has score 0, which is not above the threshold 0.
\<close>

theorem infer_single_img_rescales_witness:
  "infer_single_img (MediapipeEstimator example_process 0) (Some example_image)
     [\<lparr>bd_bbox = [1, 0, 5, 4, 1], bd_id = 0\<rparr>, \<lparr>bd_bbox = [0, 0, 6, 1, 1], bd_id = 1\<rparr>,
      \<lparr>bd_bbox = [0, 0, 6, 4, 0], bd_id = 2\<rparr>]
   = Inr [\<lparr>pd_bbox = [1, 0, 5, 4, 1], pd_keypoints = [[3, 1, 1], [5, 0, 1 / 2]]\<rparr>]
   \<and> concat (map (spec_entries (MediapipeEstimator example_process 0) example_image)
        [\<lparr>bd_bbox = [1, 0, 5, 4, 1], bd_id = 0\<rparr>, \<lparr>bd_bbox = [0, 0, 6, 1, 1], bd_id = 1\<rparr>,
         \<lparr>bd_bbox = [0, 0, 6, 4, 0], bd_id = 2\<rparr>])
     = [\<lparr>pd_bbox = [1, 0, 5, 4, 1], pd_keypoints = [[3, 1, 1], [5, 0, 1 / 2]]\<rparr>]"
proof -
  have e: "infer_single_img (MediapipeEstimator example_process 0) (Some example_image)
     [\<lparr>bd_bbox = [1, 0, 5, 4, 1], bd_id = 0\<rparr>, \<lparr>bd_bbox = [0, 0, 6, 1, 1], bd_id = 1\<rparr>,
      \<lparr>bd_bbox = [0, 0, 6, 4, 0], bd_id = 2\<rparr>]
   = Inr [\<lparr>pd_bbox = [1, 0, 5, 4, 1], pd_keypoints = [[3, 1, 1], [5, 0, 1 / 2]]\<rparr>]"
    by code_simp
  from infer_single_img_rescales[OF e] e show ?thesis by simp
qed

text \<open>
  Claim C9. Whenever \<open>infer_array\<close>, \<open>infer_frames\<close> or \<open>infer_video\<close> returns,
  the result is a triple whose second component is \<open>None\<close>, and \<open>return_heatmap\<close>
  has no effect on the outcome of any of the three.
\<close>

theorem heatmap_is_None:
  "(\<forall>r. infer_array gkn est image_array bbox_list dt rh = Inr r \<longrightarrow> fst (snd r) = None)
   \<and> (\<forall>r. infer_frames gkn imread est frame_path_list bbox_list dt rh lbs = Inr r
          \<longrightarrow> fst (snd r) = None)
   \<and> (\<forall>r. infer_video gkn v2a est video_path bbox_list dt rh = Inr r \<longrightarrow> fst (snd r) = None)
   \<and> infer_array gkn est image_array bbox_list dt rh
       = infer_array gkn est image_array bbox_list dt rh'
   \<and> infer_frames gkn imread est frame_path_list bbox_list dt rh lbs
       = infer_frames gkn imread est frame_path_list bbox_list dt rh' lbs
   \<and> infer_video gkn v2a est video_path bbox_list dt rh
       = infer_video gkn v2a est video_path bbox_list dt rh'"
proof -
  have 1: "\<forall>r. infer_array gkn est image_array bbox_list dt rh = Inr r \<longrightarrow> fst (snd r) = None"
    by (auto simp: infer_array_def Let_def err_bind_Inr_iff)
  have 2: "\<forall>r. infer_frames gkn imread est frame_path_list bbox_list dt rh lbs = Inr r
          \<longrightarrow> fst (snd r) = None"
    by (auto simp: infer_frames_def Let_def err_bind_Inr_iff)
  have 3: "\<forall>r. infer_video gkn v2a est video_path bbox_list dt rh = Inr r \<longrightarrow> fst (snd r) = None"
    by (auto simp: infer_video_def Let_def err_bind_Inr_iff)
  show ?thesis using 1 2 3
    by (simp add: infer_array_def infer_frames_def infer_video_def)
qed

text \<open>
  Claim C2. When \<open>infer_array\<close> returns, both result lists have one entry per frame.
  For a frame with a bbox of score above 0, the keypoints entry has one element per input
  bbox of the frame, each of shape \<open>(n_kps, 3)\<close> with
  \<open>n_kps = get_keypoint_num('mediapipe_body')\<close>, and the bbox entry has one row of 5
  values per input bbox; for a frame with no such bbox both entries are empty.
\<close>

theorem infer_array_shapes:
  assumes "infer_array gkn (MediapipeEstimator process thr) image_array bbox_list dt rh
             = Inr (kps, hm, bbs)"
  shows "length kps = length image_array \<and> length bbs = length image_array
       \<and> length image_array \<le> length bbox_list
       \<and> (\<forall>f<length image_array.
            if \<exists>bbox\<in>set (bbox_list ! f). bbox ! 4 > 0
            then length (kps ! f) = length (bbox_list ! f)
               \<and> (\<forall>person\<in>set (kps ! f). length person = gkn ''mediapipe_body''
                     \<and> (\<forall>kp\<in>set person. length kp = 3))
               \<and> length (bbs ! f) = length (bbox_list ! f)
               \<and> (\<forall>bbox\<in>set (bbs ! f). length bbox = 5)
            else kps ! f = [] \<and> bbs ! f = [])"
proof -
  let ?est = "MediapipeEstimator process thr"
  let ?n = "gkn ''mediapipe_body''"
  from assms have l: "infer_array_loop ?n ?est image_array bbox_list = Inr (kps, bbs)"
    by (auto simp: infer_array_def Let_def err_bind_Inr_iff
                   get_keypoints_convention_name_def MediapipeEstimator_def)
  note p = infer_array_loop_pointwise[OF l]
  have "if \<exists>bbox\<in>set (bbox_list ! f). bbox ! 4 > 0
            then length (kps ! f) = length (bbox_list ! f)
               \<and> (\<forall>person\<in>set (kps ! f). length person = ?n
                     \<and> (\<forall>kp\<in>set person. length kp = 3))
               \<and> length (bbs ! f) = length (bbox_list ! f)
               \<and> (\<forall>bbox\<in>set (bbs ! f). length bbox = 5)
            else kps ! f = [] \<and> bbs ! f = []" if "f < length image_array" for f
  proof -
    from p that have "infer_array_frame ?n ?est (image_array ! f) (bbox_list ! f)
                        = Inr (kps ! f, bbs ! f)" by blast
    from infer_array_frame_shape[OF this] show ?thesis .
  qed
  with p show ?thesis by blast
qed

text \<open>
  Claim C6. In a frame where some bbox passes the score filter, every row of the frame's
  keypoints array and of its bbox array whose index is at least \<open>len(pose_results)\<close>
  is entirely zero.
\<close>

theorem unfilled_rows_zero:
  assumes "infer_array gkn est image_array bbox_list dt rh = Inr (kps, hm, bbs)"
    and "f < length image_array"
    and "select_bboxes 0 (bbox_list ! f) = Inr bboxes_in_frame"
    and "bboxes_in_frame \<noteq> []"
    and "infer_single_img est (image_array ! f) bboxes_in_frame = Inr pose_results"
    and "length pose_results \<le> i" and "i < length (bbox_list ! f)"
  shows "kps ! f ! i = replicate (gkn (get_keypoints_convention_name est)) [0, 0, 0]
       \<and> bbs ! f ! i = [0, 0, 0, 0, 0]"
proof -
  let ?n = "gkn (get_keypoints_convention_name est)"
  from assms(1) have l: "infer_array_loop ?n est image_array bbox_list = Inr (kps, bbs)"
    by (auto simp: infer_array_def Let_def err_bind_Inr_iff)
  from infer_array_loop_pointwise[OF l] assms(2)
  have fr: "infer_array_frame ?n est (image_array ! f) (bbox_list ! f) = Inr (kps ! f, bbs ! f)"
    by blast
  from infer_array_frame_zero[OF fr assms(3) assms(4) assms(5) assms(6) assms(7)]
  show ?thesis .
qed

text \<open>The example run used by the witnesses: two frames, the second without a scored bbox.\<close>

lemma example_infer_array:
  "infer_array (\<lambda>_. 2) (MediapipeEstimator example_process 0)
     [Some example_image, Some example_image]
     [[[0, 0, 6, 1, 1], [1, 0, 5, 4, 1]], [[0, 0, 1, 1, 0]]] False True
   = Inr ([[[[3, 1, 1], [5, 0, 1 / 2]], [[0, 0, 0], [0, 0, 0]]], []], None,
          [[[1, 0, 5, 4, 1], [0, 0, 0, 0, 0]], []])"
  by code_simp

theorem heatmap_is_None_witness:
  "infer_array (\<lambda>_. 2) (MediapipeEstimator example_process 0)
     [Some example_image, Some example_image]
     [[[0, 0, 6, 1, 1], [1, 0, 5, 4, 1]], [[0, 0, 1, 1, 0]]] False True
   = Inr ([[[[3, 1, 1], [5, 0, 1 / 2]], [[0, 0, 0], [0, 0, 0]]], []], None,
          [[[1, 0, 5, 4, 1], [0, 0, 0, 0, 0]], []])
   \<and> fst (snd ([[[[3, 1, 1], [5, 0, 1 / 2]], [[0, 0, 0], [0, 0, 0 :: real]]], []],
                (None :: heatmap list option),
                [[[1, 0, 5, 4, 1], [0, 0, 0, 0, 0 :: real]], []])) = None"
proof -
  note t = heatmap_is_None[of "\<lambda>_. 2" "MediapipeEstimator example_process 0"
      "[Some example_image, Some example_image]"
      "[[[0, 0, 6, 1, 1], [1, 0, 5, 4, 1]], [[0, 0, 1, 1, 0]]]" False True]
  from t example_infer_array show ?thesis by blast
qed

theorem infer_array_shapes_witness:
  "infer_array (\<lambda>_. 2) (MediapipeEstimator example_process 0)
     [Some example_image, Some example_image]
     [[[0, 0, 6, 1, 1], [1, 0, 5, 4, 1]], [[0, 0, 1, 1, 0]]] False True
   = Inr ([[[[3, 1, 1], [5, 0, 1 / 2]], [[0, 0, 0], [0, 0, 0]]], []], None,
          [[[1, 0, 5, 4, 1], [0, 0, 0, 0, 0]], []])
   \<and> length [[[[3, 1, 1], [5, 0, 1 / 2]], [[0, 0, 0], [0, 0, 0 :: real]]], []]
       = length [Some example_image, Some example_image]
   \<and> length [[[3, 1, 1], [5, 0, 1 / 2]], [[0, 0, 0], [0, 0, 0 :: real]]]
       = length [[0, 0, 6, 1, 1], [1, 0, 5, 4, 1 :: real]]"
proof -
  note t = infer_array_shapes[OF example_infer_array]
  from t have "length ([[[[3, 1, 1], [5, 0, 1 / 2]], [[0, 0, 0], [0, 0, 0 :: real]]], []] ! 0)
      = length ([[[0, 0, 6, 1, 1], [1, 0, 5, 4, 1 :: real]], [[0, 0, 1, 1, 0]]] ! 0)"
    by simp
  with t example_infer_array show ?thesis by simp
qed

theorem unfilled_rows_zero_witness:
  "[[[[3, 1, 1], [5, 0, 1 / 2]], [[0, 0, 0], [0, 0, 0 :: real]]], []] ! 0 ! 1
     = replicate 2 [0, 0, 0]
   \<and> [[[1, 0, 5, 4, 1], [0, 0, 0, 0, 0 :: real]], []] ! 0 ! 1 = [0, 0, 0, 0, 0]"
proof -
  let ?est = "MediapipeEstimator example_process 0"
  let ?sel = "[\<lparr>bd_bbox = [0, 0, 6, 1, 1], bd_id = 0\<rparr>, \<lparr>bd_bbox = [1, 0, 5, 4, 1], bd_id = 1\<rparr>]"
  let ?res = "[\<lparr>pd_bbox = [1, 0, 5, 4, 1], pd_keypoints = [[3, 1, 1], [5, 0, 1 / 2]]\<rparr>]"
  have f: "(0::nat) < length [Some example_image, Some example_image]" by simp
  have s: "select_bboxes 0 ([[[0, 0, 6, 1, 1], [1, 0, 5, 4, 1]], [[0, 0, 1, 1, 0]]] ! 0) = Inr ?sel"
    by code_simp
  have n: "?sel \<noteq> []" by simp
  have p: "infer_single_img ?est ([Some example_image, Some example_image] ! 0) ?sel = Inr ?res"
    by code_simp
  have l: "length ?res \<le> 1" by simp
  have i: "1 < length ([[[0, 0, 6, 1, 1], [1, 0, 5, 4, 1 :: real]], [[0, 0, 1, 1, 0]]] ! 0)"
    by simp
  from unfilled_rows_zero[OF example_infer_array f s n p l i] show ?thesis
    by simp
qed

text \<open>
  Claim C4. With an empty frame list the default \<open>load_batch_size=None\<close> becomes the
  step \<open>len(frame_path_list) = 0\<close> of \<open>range\<close>, which raises \<open>ValueError\<close>, while
  every batch size of at least one returns empty results: the two outcomes differ.
  (For a non-empty frame list they agree, see \<open>infer_frames_chunking_nonempty\<close>.)
\<close>

theorem infer_frames_empty_default_raises:
  "infer_frames (\<lambda>_. 2) (\<lambda>_. None) (MediapipeEstimator example_process 0) [] [] False False None
     = Inl ValueError
   \<and> infer_frames (\<lambda>_. 2) (\<lambda>_. None) (MediapipeEstimator example_process 0) [] [] False False
       (Some 1) = Inr ([], None, [])"
  by (simp add: infer_frames_def py_range0_def)

section \<open>Properties of BottomUpMviewMpersonDataset\<close>

subsection \<open>getitem\<close>

lemma torch_stack_shape:
  "torch_stack ts = Inr t \<Longrightarrow> ts \<noteq> [] \<and> shape t = length ts # shape (hd ts)"
  by (cases ts) (auto simp: torch_stack_def split: if_splits)

lemma load_images_length:
  "load_images self paths = Inr ts \<Longrightarrow> length ts = length paths"
  by (induction paths arbitrary: ts) (auto simp: err_bind_Inr_iff)


lemma collect_views_spec:
  "collect_views m frame_idx vs = Inr l \<Longrightarrow>
     length l = length vs \<and> (\<forall>i<length vs. vs ! i < length m
        \<and> py_getitem (m ! (vs ! i)) frame_idx = Inr (l ! i))"
proof (induction vs arbitrary: l)
  case Nil
  then show ?case by simp
next
  case (Cons v vs)
  from Cons.prems obtain view k rest where
    a: "nth_err m v = Inr view" and b: "py_getitem view frame_idx = Inr k" and
    c: "collect_views m frame_idx vs = Inr rest" and l: "l = k # rest"
    by (auto simp: err_bind_Inr_iff)
  from a have v: "v < length m" "view = m ! v" by (simp_all add: nth_err_Inr_iff)
  note ih = Cons.IH[OF c]
  have "(v # vs) ! i < length m \<and> py_getitem (m ! ((v # vs) ! i)) frame_idx = Inr (l ! i)"
    if "i < length (v # vs)" for i
  proof (cases i)
    case 0
    then show ?thesis using v b l by simp
  next
    case (Suc j)
    then show ?thesis using ih that l by simp
  qed
  then show ?case using ih l by simp
qed

text \<open>The steps a returning call of \<open>getitem\<close> has gone through.\<close>

lemma getitem_Inr:
  assumes "getitem self index = Inr it"
  shows "index < len self \<and>
    (\<exists>scene_idx frame_idx eoc scene_images img_paths mview_img_list cameras k_list r_list t_list
       percep mview_keypoints2d_list mview_kps2d_list.
       process_index_mapping self index = Inr (scene_idx, frame_idx, eoc)
     \<and> py_getitem (image_list self) scene_idx = Inr scene_images
     \<and> py_getitem scene_images frame_idx = Inr img_paths
     \<and> load_images self img_paths = Inr mview_img_list
     \<and> torch_stack mview_img_list = Inr (mview_img_tensor it)
     \<and> py_getitem (fisheye_params self) scene_idx = Inr cameras
     \<and> camera_lists self cameras = Inr (k_list, r_list, t_list)
     \<and> torch_stack t_list = Inr (t_tensor it)
     \<and> end_of_clip it = (eoc \<and> \<not> shuffled self)
     \<and> percep_keypoints2d self = Some percep
     \<and> py_getitem percep scene_idx = Inr mview_keypoints2d_list
     \<and> collect_views mview_keypoints2d_list frame_idx [0..<hd (shape (mview_img_tensor it))]
         = Inr mview_kps2d_list
     \<and> kw it = KwList mview_kps2d_list)"
proof -
  from assms have lt: "index < len self"
    by (simp add: getitem_def split: if_splits)
  from assms lt obtain scene_idx frame_idx eoc where
    1: "process_index_mapping self index = Inr (scene_idx, frame_idx, eoc)"
    by (cases "process_index_mapping self index") (auto simp: getitem_def)
  show ?thesis
    using assms lt 1
    by (clarsimp simp: getitem_def err_bind_Inr_iff split: option.splits)
qed

subsection \<open>The resize step\<close>





subsection \<open>Loading the scenes\<close>

text \<open>Assigning \<open>self.n_views\<close> does not change what the loop bodies compute.\<close>

lemma scene_file_n_views [simp]: "scene_file (self\<lparr>n_views := v\<rparr>) i = scene_file self i"
  by (simp add: scene_file_def)

lemma read_scene_n_views [simp]: "read_scene w (self\<lparr>n_views := v\<rparr>) i = read_scene w self i"
  by (simp add: read_scene_def)

lemma load_view_n_views [simp]:
  "load_view w (self\<lparr>n_views := v\<rparr>) i c d k = load_view w self i c d k"
  by (simp add: load_view_def)

lemma load_views_n_views [simp]:
  "load_views w (self\<lparr>n_views := v\<rparr>) i c d ks = load_views w self i c d ks"
  by (induction ks) simp_all

lemma load_scene_fst_n_views [simp]:
  "fst (load_scene w (self\<lparr>n_views := v\<rparr>) i) = fst (load_scene w self i)"
  by (simp add: load_scene_def split: sum.splits prod.splits)

lemma load_scene_snd: "\<exists>v. snd (load_scene w self i) = self\<lparr>n_views := v\<rparr>"
proof (cases "read_scene w self i")
  case (Inl e)
  then have "snd (load_scene w self i) = self\<lparr>n_views := n_views self\<rparr>"
    by (simp add: load_scene_def)
  then show ?thesis by blast
next
  case (Inr p)
  obtain c d where p: "p = (c, d)" by (cases p)
  show ?thesis
  proof (cases "json_len d")
    case (Inl e)
    then have "snd (load_scene w self i) = self\<lparr>n_views := n_views self\<rparr>"
      using Inr p by (simp add: load_scene_def)
    then show ?thesis by blast
  next
    case n: (Inr n)
    then have "snd (load_scene w self i) = self\<lparr>n_views := Some n\<rparr>"
      using Inr p by (simp add: load_scene_def)
    then show ?thesis by blast
  qed
qed

lemma load_scenes_error_first:
  assumes "\<forall>j\<in>set pre. \<exists>m. fst (load_scene w self j) = Inr m"
    and "fst (load_scene w self i) = Inl e"
  shows "fst (load_scenes w (self\<lparr>n_views := v\<rparr>) (pre @ i # post) acc) = Inl e"
  using assms(1)
proof (induction pre arbitrary: v acc)
  case Nil
  obtain r s where l: "load_scene w (self\<lparr>n_views := v\<rparr>) i = (r, s)" by fastforce
  then have "r = Inl e" using assms(2) load_scene_fst_n_views[where w=w and self=self and v=v and i=i] by simp
  then show ?case using l by simp
next
  case (Cons j pre)
  obtain r s where l: "load_scene w (self\<lparr>n_views := v\<rparr>) j = (r, s)" by fastforce
  from Cons.prems obtain m where "fst (load_scene w self j) = Inr m" by auto
  then have r: "r = Inr m" using l load_scene_fst_n_views[where w=w and self=self and v=v and i=j] by simp
  from load_scene_snd[of w "self\<lparr>n_views := v\<rparr>" j] l obtain v' where
    s: "s = self\<lparr>n_views := v'\<rparr>" by auto
  have "fst (load_scenes w (self\<lparr>n_views := v'\<rparr>) (pre @ i # post) (acc @ [m])) = Inl e"
    using Cons.IH Cons.prems by simp
  then show ?case using l r s by simp
qed

lemma load_scenes_percep:
  "percep_keypoints2d (snd (load_scenes w self scenes acc)) = percep_keypoints2d self"
proof (induction scenes arbitrary: self acc)
  case Nil
  show ?case by simp
next
  case (Cons j scenes)
  obtain r s where l: "load_scene w self j = (r, s)" by fastforce
  from load_scene_snd[of w self j] l obtain v where s: "s = self\<lparr>n_views := v\<rparr>" by auto
  show ?case
  proof (cases r)
    case (Inl e)
    then show ?thesis using l s by simp
  next
    case (Inr m)
    then show ?thesis using l s Cons.IH[of s "acc @ [m]"] by simp
  qed
qed

lemma load_scenes_ok:
  "fst (load_scenes w (self\<lparr>n_views := v\<rparr>) scenes acc) = Inr ms \<Longrightarrow>
     \<forall>i\<in>set scenes. \<exists>m. fst (load_scene w self i) = Inr m"
proof (induction scenes arbitrary: v acc)
  case Nil
  show ?case by simp
next
  case (Cons j scenes)
  obtain r s where l: "load_scene w (self\<lparr>n_views := v\<rparr>) j = (r, s)" by fastforce
  from load_scene_snd[of w "self\<lparr>n_views := v\<rparr>" j] l obtain v' where
    s: "s = self\<lparr>n_views := v'\<rparr>" by auto
  have f: "fst (load_scene w self j) = r"
    using l load_scene_fst_n_views[where w=w and self=self and v=v and i=j] by simp
  show ?case
  proof (cases r)
    case (Inl e)
    then show ?thesis using Cons.prems l by simp
  next
    case (Inr m)
    then have "fst (load_scenes w (self\<lparr>n_views := v'\<rparr>) scenes (acc @ [m])) = Inr ms"
      using Cons.prems l s by simp
    from Cons.IH[OF this] f Inr show ?thesis by simp
  qed
qed

lemma load_scene_ok_reads:
  assumes "fst (load_scene w self i) = Inr m"
  shows "\<exists>json_data c d. files w (scene_file self i) = Some (Inr json_data)
           \<and> json_member json_data ''convention'' = Inr c
           \<and> json_member json_data ''data'' = Inr d"
proof -
  from assms obtain c d where r: "read_scene w self i = Inr (c, d)"
    by (cases "read_scene w self i") (auto simp: load_scene_def)
  then show ?thesis
    by (auto simp: read_scene_def err_bind_Inr_iff split: option.splits)
qed

lemma load_scene_missing:
  "files w (scene_file self i) = None \<Longrightarrow> fst (load_scene w self i) = Inl FileNotFoundError"
  by (simp add: load_scene_def read_scene_def)

lemma json_member_absent:
  "key \<notin> fst ` set members \<Longrightarrow> json_member (JObj members) key = Inl KeyError"
proof -
  assume "key \<notin> fst ` set members"
  then have "key \<notin> fst ` set (rev members)" by simp
  then have "map_of (rev members) key = None" by (simp add: map_of_eq_None_iff)
  then show ?thesis by (simp add: json_member_def)
qed

lemma json_member_JObj: "json_member (JObj members) key \<noteq> Inl TypeError"
  by (simp add: json_member_def split: option.splits)

lemma load_scene_key_absent:
  assumes "files w (scene_file self i) = Some (Inr (JObj members))"
    and "''convention'' \<notin> fst ` set members \<or> ''data'' \<notin> fst ` set members"
  shows "fst (load_scene w self i) = Inl KeyError"
proof -
  have "read_scene w self i = Inl KeyError"
  proof (cases "''convention'' \<in> fst ` set members")
    case False
    then show ?thesis using assms(1) json_member_absent[of "''convention''" members]
      by (simp add: read_scene_def)
  next
    case True
    with assms(2) have d: "json_member (JObj members) ''data'' = Inl KeyError"
      using json_member_absent[of "''data''" members] by blast
    show ?thesis
    proof (cases "json_member (JObj members) ''convention''")
      case (Inl e)
      from True have "map_of (rev members) ''convention'' \<noteq> None"
        by (simp add: map_of_eq_None_iff)
      then have False using Inl by (auto simp: json_member_def)
      then show ?thesis ..
    next
      case (Inr c)
      then show ?thesis using assms(1) d by (simp add: read_scene_def)
    qed
  qed
  then show ?thesis by (simp add: load_scene_def)
qed


lemma read_scene_same:
  assumes "same_reads (files w (scene_file self i)) (files w' (scene_file self i))"
  shows "read_scene w' self i = read_scene w self i"
proof (cases "files w (scene_file self i) = files w' (scene_file self i)")
  case True
  then show ?thesis by (simp add: read_scene_def)
next
  case False
  with assms have c: "(case (files w (scene_file self i), files w' (scene_file self i)) of
        (Some (Inr doc), Some (Inr doc')) \<Rightarrow>
          json_member doc ''convention'' = json_member doc' ''convention''
        \<and> json_member doc ''data'' = json_member doc' ''data''
      | _ \<Rightarrow> False)"
    by (simp add: same_reads_def)
  then obtain a where a: "files w (scene_file self i) = Some a"
    by (cases "files w (scene_file self i)") simp_all
  from c a obtain doc where doc: "a = Inr doc" by (cases a) simp_all
  from c a doc obtain b where b: "files w' (scene_file self i) = Some b"
    by (cases "files w' (scene_file self i)") simp_all
  from c a doc b obtain doc' where doc': "b = Inr doc'" by (cases b) simp_all
  from c a doc b doc' have
    "json_member doc ''convention'' = json_member doc' ''convention''"
    "json_member doc ''data'' = json_member doc' ''data''"
    by simp_all
  then show ?thesis by (simp add: read_scene_def a b doc doc')
qed

lemma load_view_world:
  "convert_bottom_up_kps_paf w' = convert_bottom_up_kps_paf w \<Longrightarrow>
     load_view w' self i c d k = load_view w self i c d k"
  by (simp add: load_view_def)

lemma load_views_world:
  assumes "convert_bottom_up_kps_paf w' = convert_bottom_up_kps_paf w"
  shows "load_views w' self i c d ks = load_views w self i c d ks"
  by (induction ks) (simp_all add: load_view_world[OF assms])

lemma load_scene_world:
  assumes "convert_bottom_up_kps_paf w' = convert_bottom_up_kps_paf w"
    and "same_reads (files w (scene_file self i)) (files w' (scene_file self i))"
  shows "load_scene w' self i = load_scene w self i"
  by (simp add: load_scene_def read_scene_same[OF assms(2)] load_views_world[OF assms(1)]
           split: sum.splits prod.splits)

lemma load_scenes_world:
  assumes "convert_bottom_up_kps_paf w' = convert_bottom_up_kps_paf w"
    and "\<forall>i\<in>set scenes. same_reads (files w (scene_file self i)) (files w' (scene_file self i))"
  shows "load_scenes w' (self\<lparr>n_views := v\<rparr>) scenes acc
       = load_scenes w (self\<lparr>n_views := v\<rparr>) scenes acc"
  using assms(2)
proof (induction scenes arbitrary: v acc)
  case Nil
  show ?case by simp
next
  case (Cons j scenes)
  have "same_reads (files w (scene_file (self\<lparr>n_views := v\<rparr>) j))
                   (files w' (scene_file (self\<lparr>n_views := v\<rparr>) j))"
    using Cons.prems by simp
  from load_scene_world[OF assms(1) this]
  have e: "load_scene w' (self\<lparr>n_views := v\<rparr>) j = load_scene w (self\<lparr>n_views := v\<rparr>) j" .
  obtain r s where l: "load_scene w (self\<lparr>n_views := v\<rparr>) j = (r, s)" by fastforce
  from load_scene_snd[of w "self\<lparr>n_views := v\<rparr>" j] l obtain v' where
    s: "s = self\<lparr>n_views := v'\<rparr>" by auto
  show ?case
  proof (cases r)
    case (Inl x)
    then show ?thesis using e l by simp
  next
    case (Inr m)
    then show ?thesis using e l s Cons.IH[of v' "acc @ [m]"] Cons.prems by simp
  qed
qed

lemma str_nat_last: "str_nat n \<noteq> [] \<and> last (str_nat n) = ''0123456789'' ! (n mod 10)"
proof (cases "n < 10")
  case True
  then have "str_nat n = [''0123456789'' ! n]" by (subst str_nat.simps) simp
  then show ?thesis using True by simp
next
  case False
  then have "str_nat n = str_nat (n div 10) @ [''0123456789'' ! (n mod 10)]"
    by (subst str_nat.simps) simp
  then show ?thesis by simp
qed


lemma digit_not_slash: "k < 10 \<Longrightarrow> ''0123456789'' ! k \<noteq> CHR ''/''"
proof -
  assume "k < 10"
  then have "''0123456789'' ! k \<in> set ''0123456789''" by (intro nth_mem) simp
  then show ?thesis by auto
qed

lemma scene_file_path:
  assumes "meta_path self \<noteq> []" and "last (meta_path self) \<noteq> CHR ''/''"
  shows "scene_file self i = meta_path self @ ''/scene_'' @ str_nat i @ ''/kps2d_paf.json''"
proof -
  have 1: "os_path_join (meta_path self) (''scene_'' @ str_nat i)
         = meta_path self @ ''/'' @ ''scene_'' @ str_nat i"
    using assms by (simp add: os_path_join_def)
  have "last (str_nat i) \<noteq> CHR ''/''"
    using str_nat_last[of i] digit_not_slash[of "i mod 10"] by simp
  then have 2: "last (meta_path self @ ''/'' @ ''scene_'' @ str_nat i) \<noteq> CHR ''/''"
    using str_nat_last[of i] by simp
  show ?thesis unfolding scene_file_def 1 using 2 by (simp add: os_path_join_def)
qed

lemma load_perception_2d_fst:
  "fst (load_perception_2d w self) =
     (case fst (load_scenes w self [0..<nat (n_scene self)] []) of
        Inl e \<Rightarrow> Some e | Inr m \<Rightarrow> None)"
  by (simp add: load_perception_2d_def split: prod.splits sum.splits)

subsection \<open>The claims about getitem\<close>

text \<open>The example run used by the witnesses: the last frame of the scene.\<close>

lemma example_getitem: "getitem example_dataset 1 = Inr example_item"
  by code_simp

text \<open>
  Claim C1. For a valid index, when \<open>getitem\<close> returns, \<open>end_of_clip\<close> is true exactly
  when \<open>process_index_mapping\<close> marks the index as the last frame of its clip and the
  dataset is not shuffled; with \<open>shuffled\<close> it is false for every index.
\<close>

theorem end_of_clip_flag:
  assumes "index < len self"
    and "process_index_mapping self index = Inr (scene_idx, frame_idx, last_frame)"
    and "getitem self index = Inr it"
  shows "(end_of_clip it \<longleftrightarrow> last_frame \<and> \<not> shuffled self)
       \<and> (shuffled self \<longrightarrow> \<not> end_of_clip it)"
  using getitem_Inr[OF assms(3)] assms(2) by auto

theorem end_of_clip_flag_witness:
  "getitem example_dataset 1 = Inr example_item
   \<and> (end_of_clip example_item \<longleftrightarrow> (1 = (1::int)) \<and> \<not> shuffled example_dataset)
   \<and> \<not> shuffled example_dataset"
proof -
  have l: "1 < len example_dataset" by (simp add: example_dataset_def)
  have p: "process_index_mapping example_dataset 1 = Inr (0, 1, 1 = (1::int))"
    by (simp add: example_dataset_def)
  have s: "\<not> shuffled example_dataset" by (simp add: example_dataset_def)
  from end_of_clip_flag[OF l p example_getitem] s example_getitem show ?thesis by blast
qed




text \<open>
  Claim C10. For an index of at least \<open>len(self)\<close>, \<open>getitem\<close> raises
  \<open>StopIteration\<close>. When it returns, the index is valid and \<open>kw_data\<close> is a list, not
  a dict, of length \<open>n_view = mview_img_tensor.shape[0]\<close>, the number of image paths of
  the frame; its element at \<open>view_idx\<close> is the detection record of that view for the
  frame.
\<close>

theorem kw_data_is_list:
  "(index \<ge> len self \<longrightarrow> getitem self index = Inl StopIteration)
   \<and> (\<forall>it. getitem self index = Inr it \<longrightarrow>
        index < len self
      \<and> (\<exists>mview_kps2d_list. kw it = KwList mview_kps2d_list
            \<and> length mview_kps2d_list = hd (shape (mview_img_tensor it))
            \<and> (\<forall>scene_idx frame_idx eoc scene_images img_paths percep views.
                  process_index_mapping self index = Inr (scene_idx, frame_idx, eoc)
                \<and> py_getitem (image_list self) scene_idx = Inr scene_images
                \<and> py_getitem scene_images frame_idx = Inr img_paths
                \<and> percep_keypoints2d self = Some percep
                \<and> py_getitem percep scene_idx = Inr views
                \<longrightarrow> length mview_kps2d_list = length img_paths
                  \<and> (\<forall>view_idx<length img_paths. view_idx < length views
                        \<and> py_getitem (views ! view_idx) frame_idx
                            = Inr (mview_kps2d_list ! view_idx)))))"
proof -
  have a: "index \<ge> len self \<longrightarrow> getitem self index = Inl StopIteration"
    by (simp add: getitem_def)
  have b: "index < len self
      \<and> (\<exists>mview_kps2d_list. kw it = KwList mview_kps2d_list
            \<and> length mview_kps2d_list = hd (shape (mview_img_tensor it))
            \<and> (\<forall>scene_idx frame_idx eoc scene_images img_paths percep views.
                  process_index_mapping self index = Inr (scene_idx, frame_idx, eoc)
                \<and> py_getitem (image_list self) scene_idx = Inr scene_images
                \<and> py_getitem scene_images frame_idx = Inr img_paths
                \<and> percep_keypoints2d self = Some percep
                \<and> py_getitem percep scene_idx = Inr views
                \<longrightarrow> length mview_kps2d_list = length img_paths
                  \<and> (\<forall>view_idx<length img_paths. view_idx < length views
                        \<and> py_getitem (views ! view_idx) frame_idx
                            = Inr (mview_kps2d_list ! view_idx))))"
    if g: "getitem self index = Inr it" for it
  proof -
    from getitem_Inr[OF g] obtain scene_idx frame_idx eoc scene_images img_paths mview_img_list
        percep views l where
      lt: "index < len self" and
      p: "process_index_mapping self index = Inr (scene_idx, frame_idx, eoc)" and
      i1: "py_getitem (image_list self) scene_idx = Inr scene_images" and
      i2: "py_getitem scene_images frame_idx = Inr img_paths" and
      li: "load_images self img_paths = Inr mview_img_list" and
      st: "torch_stack mview_img_list = Inr (mview_img_tensor it)" and
      pk: "percep_keypoints2d self = Some percep" and
      pv: "py_getitem percep scene_idx = Inr views" and
      cv: "collect_views views frame_idx [0..<hd (shape (mview_img_tensor it))] = Inr l" and
      kw: "kw it = KwList l"
      by blast
    have n: "hd (shape (mview_img_tensor it)) = length img_paths"
      using torch_stack_shape[OF st] load_images_length[OF li] by simp
    note c = collect_views_spec[OF cv]
    have len: "length l = length img_paths" using c n by simp
    have el: "\<forall>view_idx<length img_paths. view_idx < length views
                \<and> py_getitem (views ! view_idx) frame_idx = Inr (l ! view_idx)"
      using c n by simp
    show ?thesis using lt kw len el n p i1 i2 pk pv by auto
  qed
  show ?thesis using a b by blast
qed

theorem kw_data_is_list_witness:
  "getitem example_dataset 2 = Inl StopIteration
   \<and> getitem example_dataset 1 = Inr example_item
   \<and> kw example_item = KwList [example_detection, example_detection]
   \<and> length [example_detection, example_detection]
       = hd (shape (mview_img_tensor example_item))"
proof -
  have l: "2 \<ge> len example_dataset" by (simp add: example_dataset_def)
  from kw_data_is_list[of example_dataset 2] l
  have a: "getitem example_dataset 2 = Inl StopIteration" by blast
  from kw_data_is_list[of example_dataset 1] example_getitem
  obtain mview_kps2d_list where
    k: "kw example_item = KwList mview_kps2d_list" and
    n: "length mview_kps2d_list = hd (shape (mview_img_tensor example_item))"
    by blast
  have "kw example_item = KwList [example_detection, example_detection]"
    by (simp add: example_item_def)
  with k have "mview_kps2d_list = [example_detection, example_detection]" by simp
  with a k n example_getitem show ?thesis by simp
qed


subsection \<open>The claims about load_perception_2d\<close>



text \<open>
  Claim C8. \<open>load_perception_2d\<close> reads, for every scene index below \<open>n_scene\<close>, the
  file \<open>meta_path/scene_i/kps2d_paf.json\<close> and of its content the keys \<open>convention\<close>
  and \<open>data\<close> only. When the scenes before \<open>i\<close> load and the file of scene \<open>i\<close> is
  missing, \<open>FileNotFoundError\<close> escapes; when that file holds a dict without one of the
  two keys, \<open>KeyError\<close> escapes. Whenever an exception escapes,
  \<open>self.percep_keypoints2d\<close> is what it was. When the method returns, every scene file
  was there with both keys; and a world that differs only in other files, or in other
  keys of the scene files, gives the same outcome.
\<close>

theorem load_perception_2d_propagates:
  "(\<forall>i<nat (n_scene self).
      (\<forall>j<i. \<exists>m. fst (load_scene w self j) = Inr m) \<and> files w (scene_file self i) = None
      \<longrightarrow> fst (load_perception_2d w self) = Some FileNotFoundError)
 \<and> (\<forall>i<nat (n_scene self). \<forall>members.
      (\<forall>j<i. \<exists>m. fst (load_scene w self j) = Inr m)
      \<and> files w (scene_file self i) = Some (Inr (JObj members))
      \<and> (''convention'' \<notin> fst ` set members \<or> ''data'' \<notin> fst ` set members)
      \<longrightarrow> fst (load_perception_2d w self) = Some KeyError)
 \<and> (\<forall>e. fst (load_perception_2d w self) = Some e \<longrightarrow>
      percep_keypoints2d (snd (load_perception_2d w self)) = percep_keypoints2d self)
 \<and> (fst (load_perception_2d w self) = None \<longrightarrow>
      (\<forall>i<nat (n_scene self). \<exists>json_data c d.
          files w (scene_file self i) = Some (Inr json_data)
        \<and> json_member json_data ''convention'' = Inr c
        \<and> json_member json_data ''data'' = Inr d))
 \<and> (\<forall>w'. convert_bottom_up_kps_paf w' = convert_bottom_up_kps_paf w
        \<and> (\<forall>i<nat (n_scene self).
              same_reads (files w (scene_file self i)) (files w' (scene_file self i)))
        \<longrightarrow> load_perception_2d w' self = load_perception_2d w self)
 \<and> (meta_path self \<noteq> [] \<and> last (meta_path self) \<noteq> CHR ''/'' \<longrightarrow>
      (\<forall>i. scene_file self i = meta_path self @ ''/scene_'' @ str_nat i @ ''/kps2d_paf.json''))"
proof -
  let ?n = "nat (n_scene self)"
  have self: "self\<lparr>n_views := n_views self\<rparr> = self" by simp
  have first: "fst (load_perception_2d w self) = Some e"
    if i: "i < ?n" and pre: "\<forall>j<i. \<exists>m. fst (load_scene w self j) = Inr m"
      and e: "fst (load_scene w self i) = Inl e" for i e
  proof -
    have "[0..<i + (?n - i)] = [0..<i] @ [i..<i + (?n - i)]"
      by (rule upt_add_eq_append) simp
    moreover have "i + (?n - i) = ?n" using i by simp
    moreover have "[i..<?n] = i # [Suc i..<?n]" using i by (rule upt_conv_Cons)
    ultimately have sp: "[0..<?n] = [0..<i] @ i # [Suc i..<?n]" by simp
    have "\<forall>j\<in>set [0..<i]. \<exists>m. fst (load_scene w self j) = Inr m" using pre by simp
    from load_scenes_error_first[OF this e, of "n_views self" "[Suc i..<?n]" "[]"]
    have "fst (load_scenes w self [0..<?n] []) = Inl e" unfolding self sp .
    then show ?thesis by (simp add: load_perception_2d_fst)
  qed
  have a: "\<forall>i<?n.
      (\<forall>j<i. \<exists>m. fst (load_scene w self j) = Inr m) \<and> files w (scene_file self i) = None
      \<longrightarrow> fst (load_perception_2d w self) = Some FileNotFoundError"
    using first load_scene_missing by blast
  have b: "\<forall>i<?n. \<forall>members.
      (\<forall>j<i. \<exists>m. fst (load_scene w self j) = Inr m)
      \<and> files w (scene_file self i) = Some (Inr (JObj members))
      \<and> (''convention'' \<notin> fst ` set members \<or> ''data'' \<notin> fst ` set members)
      \<longrightarrow> fst (load_perception_2d w self) = Some KeyError"
    using first load_scene_key_absent by blast
  have c: "\<forall>e. fst (load_perception_2d w self) = Some e \<longrightarrow>
      percep_keypoints2d (snd (load_perception_2d w self)) = percep_keypoints2d self"
    using load_scenes_percep[of w self "[0..<?n]" "[]"]
    by (auto simp: load_perception_2d_def split: prod.splits sum.splits)
  have d: "fst (load_perception_2d w self) = None \<longrightarrow>
      (\<forall>i<?n. \<exists>json_data c d.
          files w (scene_file self i) = Some (Inr json_data)
        \<and> json_member json_data ''convention'' = Inr c
        \<and> json_member json_data ''data'' = Inr d)"
  proof
    assume "fst (load_perception_2d w self) = None"
    then obtain ms where "fst (load_scenes w self [0..<?n] []) = Inr ms"
      by (auto simp: load_perception_2d_fst split: sum.splits)
    then have "fst (load_scenes w (self\<lparr>n_views := n_views self\<rparr>) [0..<?n] []) = Inr ms"
      by simp
    from load_scenes_ok[OF this] have "\<forall>i<?n. \<exists>m. fst (load_scene w self i) = Inr m"
      by simp
    then show "\<forall>i<?n. \<exists>json_data c d.
          files w (scene_file self i) = Some (Inr json_data)
        \<and> json_member json_data ''convention'' = Inr c
        \<and> json_member json_data ''data'' = Inr d"
      using load_scene_ok_reads by blast
  qed
  have e: "\<forall>w'. convert_bottom_up_kps_paf w' = convert_bottom_up_kps_paf w
        \<and> (\<forall>i<?n. same_reads (files w (scene_file self i)) (files w' (scene_file self i)))
        \<longrightarrow> load_perception_2d w' self = load_perception_2d w self"
  proof (intro allI impI)
    fix w' :: world
    assume h: "convert_bottom_up_kps_paf w' = convert_bottom_up_kps_paf w
        \<and> (\<forall>i<?n. same_reads (files w (scene_file self i)) (files w' (scene_file self i)))"
    then have 1: "convert_bottom_up_kps_paf w' = convert_bottom_up_kps_paf w"
      and 2: "\<forall>i\<in>set [0..<?n].
                same_reads (files w (scene_file self i)) (files w' (scene_file self i))"
      by simp_all
    from load_scenes_world[OF 1 2, of "n_views self" "[]"]
    have "load_scenes w' self [0..<?n] [] = load_scenes w self [0..<?n] []"
      unfolding self .
    then show "load_perception_2d w' self = load_perception_2d w self"
      by (simp add: load_perception_2d_def)
  qed
  have f: "meta_path self \<noteq> [] \<and> last (meta_path self) \<noteq> CHR ''/'' \<longrightarrow>
      (\<forall>i. scene_file self i = meta_path self @ ''/scene_'' @ str_nat i @ ''/kps2d_paf.json'')"
    using scene_file_path by blast
  from a b c d e f show ?thesis by (intro conjI)
qed


theorem load_perception_2d_propagates_witness:
  "fst (load_perception_2d (example_world\<lparr>files := (\<lambda>path. None)\<rparr>) example_dataset)
     = Some FileNotFoundError
   \<and> percep_keypoints2d
       (snd (load_perception_2d (example_world\<lparr>files := (\<lambda>path. None)\<rparr>) example_dataset))
     = percep_keypoints2d example_dataset
   \<and> fst (load_perception_2d
            (example_world\<lparr>files := (\<lambda>path. Some (Inr (JObj [(''convention'', JNull)])))\<rparr>)
            example_dataset)
     = Some KeyError
   \<and> fst (load_perception_2d example_world example_dataset) = None
   \<and> files example_world (scene_file example_dataset 0) = Some (Inr example_json)
   \<and> scene_file example_dataset 0 = ''meta/scene_0/kps2d_paf.json''"
proof -
  let ?missing = "example_world\<lparr>files := (\<lambda>path. None)\<rparr>"
  let ?nokey = "example_world\<lparr>files := (\<lambda>path. Some (Inr (JObj [(''convention'', JNull)])))\<rparr>"
  have n: "(0::nat) < nat (n_scene example_dataset)" by (simp add: example_dataset_def)
  have m: "meta_path example_dataset \<noteq> [] \<and> last (meta_path example_dataset) \<noteq> CHR ''/''"
    by (simp add: example_dataset_def)
  have s0: "str_nat 0 = ''0''" by (subst str_nat.simps) simp
  have p: "(\<forall>j<(0::nat). \<exists>m. fst (load_scene w example_dataset j) = Inr m)" for w by simp
  have a: "fst (load_perception_2d ?missing example_dataset) = Some FileNotFoundError"
  proof -
    have "files ?missing (scene_file example_dataset 0) = None" by simp
    with load_perception_2d_propagates[of example_dataset ?missing] n p show ?thesis by blast
  qed
  have b: "percep_keypoints2d (snd (load_perception_2d ?missing example_dataset))
         = percep_keypoints2d example_dataset"
    using load_perception_2d_propagates[of example_dataset ?missing] a by blast
  have c: "fst (load_perception_2d ?nokey example_dataset) = Some KeyError"
  proof -
    have "files ?nokey (scene_file example_dataset 0) = Some (Inr (JObj [(''convention'', JNull)]))"
      by simp
    moreover have "''data'' \<notin> fst ` set [(''convention'', JNull)]" by simp
    ultimately show ?thesis
      using load_perception_2d_propagates[of example_dataset ?nokey] n p by blast
  qed
  have d: "fst (load_perception_2d example_world example_dataset) = None" by code_simp
  have f: "scene_file example_dataset 0 = ''meta/scene_0/kps2d_paf.json''"
    using load_perception_2d_propagates[of example_dataset example_world] m s0
    by (simp add: example_dataset_def)
  have e: "files example_world (scene_file example_dataset 0) = Some (Inr example_json)"
    unfolding f by (simp add: example_world_def)
  from a b c d e f show ?thesis by (intro conjI)
qed

end
